theory Spec2Isabelle
  imports Complex_Main
begin

chapter \<open>The model\<close>

section \<open>URL normalisation (openai-compat-router/utils/url.ts)\<close>

text \<open>
  JavaScript strings are modelled as \<^typ>\<open>string\<close>. Every operation used by
  \<^verbatim>\<open>normalizeApiUrl\<close> works code unit by code unit and compares with ASCII
  literals only, so the element type plays no role beyond equality.
\<close>

datatype provider = Anthropic | OpenAI

text \<open>\<^verbatim>\<open>s.replace(/\/+$/, '')\<close>: the trailing run of slashes is removed.\<close>

definition trimSlash :: "string \<Rightarrow> string" where
  "trimSlash s = rev (dropWhile (\<lambda>c. c = CHR ''/'') (rev s))"

text \<open>\<^verbatim>\<open>String.prototype.endsWith\<close>.\<close>

definition endsWith :: "string \<Rightarrow> string \<Rightarrow> bool" where
  "endsWith s suffix =
     (length suffix \<le> length s \<and> drop (length s - length suffix) s = suffix)"

text \<open>\<^verbatim>\<open>String.prototype.startsWith\<close> (used to define \<^verbatim>\<open>indexOf\<close>).\<close>

definition startsWith :: "string \<Rightarrow> string \<Rightarrow> bool" where
  "startsWith s pre = (take (length pre) s = pre)"

text \<open>
  \<^verbatim>\<open>String.prototype.indexOf\<close>: the first position at which the pattern occurs;
  \<open>None\<close> stands for the result \<open>-1\<close>. \<^verbatim>\<open>includes\<close> (here \<open>includesStr\<close>) is \<open>indexOf \<noteq> None\<close>.
\<close>

fun indexOf :: "string \<Rightarrow> string \<Rightarrow> nat option" where
  "indexOf [] pat = (if pat = [] then Some 0 else None)"
| "indexOf (c # cs) pat =
     (if startsWith (c # cs) pat then Some 0 else map_option Suc (indexOf cs pat))"

definition includesStr :: "string \<Rightarrow> string \<Rightarrow> bool" where
  "includesStr s pat = (indexOf s pat \<noteq> None)"

definition partialSuffixes :: "string list" where
  "partialSuffixes = [''/v1/chat'', ''/chat'', ''/v1/'']"

text \<open>
  The loop over \<^verbatim>\<open>partialSuffixes\<close>: the first suffix that matches is cut off
  (\<^verbatim>\<open>slice(0, -suffix.length)\<close>) and the loop breaks.
\<close>

fun stripPartialSuffix :: "string \<Rightarrow> string list \<Rightarrow> string" where
  "stripPartialSuffix normalized [] = normalized"
| "stripPartialSuffix normalized (suffix # rest) =
     (if endsWith normalized suffix
      then take (length normalized - length suffix) normalized
      else stripPartialSuffix normalized rest)"

definition normalizeApiUrl :: "string \<Rightarrow> provider \<Rightarrow> string" where
  "normalizeApiUrl apiUrl provider =
     (let normalized = trimSlash apiUrl in
      if provider = Anthropic then normalized
      else if endsWith normalized ''/chat/completions'' \<or> endsWith normalized ''/responses''
      then normalized
      else
        let stripped = stripPartialSuffix normalized partialSuffixes;
            withV1 =
              (if includesStr stripped ''/v1''
               then (case indexOf stripped ''/v1'' of
                       Some v1Idx \<Rightarrow> take (v1Idx + 3) stripped
                     | None \<Rightarrow> stripped)
               else stripped @ ''/v1'')
        in withV1 @ ''/chat/completions'')"

section \<open>Health orchestrator (services/health/orchestrator.ts)\<close>

datatype HealthStatus = Healthy | Degraded | Unhealthy

datatype StrategyId = S1 | S2 | S3 | S4

text \<open>
  The result of calling a collaborator: it returns a value or throws (the payload is
  the error's message).
\<close>

datatype 'a outcome = Returns 'a | Throws string

text \<open>
  A thrown value as a \<^verbatim>\<open>catch\<close> block of the orchestrator or of the startup checker
  meets it: \<^verbatim>\<open>null\<close> or \<^verbatim>\<open>undefined\<close>, or any other value, with the text that
  reading its \<^verbatim>\<open>message\<close> gives (for a value without a message, the text of
  \<^verbatim>\<open>undefined\<close>). A call completes with a value or raises a thrown value.
\<close>

datatype thrown = ThrownNullish | ThrownError string

datatype 'a completion = Completes 'a | Raises thrown

text \<open>
  Reading \<^verbatim>\<open>error.message\<close> (also written \<^verbatim>\<open>(error as Error).message\<close>): of
  \<^verbatim>\<open>null\<close> or \<^verbatim>\<open>undefined\<close> it throws a TypeError.
\<close>

definition readMessage :: "thrown \<Rightarrow> string completion" where
  "readMessage e =
     (case e of
        ThrownNullish \<Rightarrow> Raises (ThrownError ''Cannot read properties of undefined'')
      | ThrownError m \<Rightarrow> Completes m)"

text \<open>\<^verbatim>\<open>HealthEvent\<close> (shared/types/health.ts): type and category are strings.\<close>

record HealthEvent =
  ev_type :: string
  category :: string
  timestamp :: nat
  source :: string
  message :: string

text \<open>
  The calls the orchestrator makes into other modules while it runs, with their
  arguments: the recovery manager's \<^verbatim>\<open>updateErrorCount\<close>,
  \<^verbatim>\<open>selectRecoveryStrategy\<close>, \<^verbatim>\<open>canRecover\<close>, \<^verbatim>\<open>executeRecovery\<close> and
  \<^verbatim>\<open>executeRecoveryWithUI\<close>; the window service's \<^verbatim>\<open>sendToRenderer\<close> on the channel
  \<^verbatim>\<open>health:status-change\<close> with status, previous status and reason; and the
  \<^verbatim>\<open>console.error\<close> of \<^verbatim>\<open>handleSelfError\<close> with the counter and the message. The
  other console lines print a strategy or a status.
\<close>

datatype call =
    UpdateErrorCount nat
  | SelectRecoveryStrategy nat string
  | CanRecover
  | ExecuteRecovery StrategyId bool
  | ExecuteRecoveryWithUI StrategyId string
  | SendToRenderer HealthStatus HealthStatus string
  | ConsoleError nat string

text \<open>
  The module state of orchestrator.ts: the fields of \<^verbatim>\<open>systemState\<close>, the counter
  \<^verbatim>\<open>selfFailures\<close>, and \<open>pollIntervalId\<close>, which is \<open>True\<close> when the timer
  variable \<^verbatim>\<open>pollIntervalId\<close> of runtime-checker.ts is not null (the only state of that
  module that \<^verbatim>\<open>startFallbackPolling\<close>, \<^verbatim>\<open>stopFallbackPolling\<close> and
  \<^verbatim>\<open>isPollingActive\<close> read or write, apart from the callback). \<open>calls\<close> is the log
  of the calls made so far, in order; the program has no such variable.
\<close>

record orchestrator =
  status :: HealthStatus
  instanceId :: string
  startedAt :: nat
  consecutiveFailures :: nat
  recoveryAttempts :: nat
  isPollingActiveField :: bool
  isEnabled :: bool
  recentEvents :: "HealthEvent list"
  selfFailures :: nat
  pollIntervalId :: bool
  calls :: "call list"

text \<open>
  The functions of the recovery manager and of the window service that the event handler
  calls are not part of the sources at hand. They are parameters of the model: what each
  call, with its arguments, returns, or the value it throws.
\<close>

record collaborators =
  updateErrorCount :: "nat \<Rightarrow> unit completion"
  selectRecoveryStrategy :: "nat \<Rightarrow> string \<Rightarrow> StrategyId option completion"
  canRecover :: "bool completion"
  sendToRenderer :: "HealthStatus \<Rightarrow> HealthStatus \<Rightarrow> string \<Rightarrow> unit completion"

text \<open>
  A block that may throw: \<open>Done\<close> with the state it leaves, or \<open>Raised\<close> with the state
  at the moment of the throw (assignments made before the throw stay) and the value
  thrown.
\<close>

datatype attempt = Done orchestrator | Raised orchestrator thrown

definition andThen :: "attempt \<Rightarrow> (orchestrator \<Rightarrow> attempt) \<Rightarrow> attempt" where
  "andThen a f = (case a of Done st \<Rightarrow> f st | Raised st e \<Rightarrow> Raised st e)"

text \<open>The state an attempt leaves.\<close>

definition stateOf :: "attempt \<Rightarrow> orchestrator" where
  "stateOf a = (case a of Done st \<Rightarrow> st | Raised st e \<Rightarrow> st)"

definition hasRaised :: "attempt \<Rightarrow> bool" where
  "hasRaised a = (case a of Done st \<Rightarrow> False | Raised st e \<Rightarrow> True)"

definition called :: "call \<Rightarrow> orchestrator \<Rightarrow> orchestrator" where
  "called c st = st\<lparr>calls := calls st @ [c]\<rparr>"

definition MAX_SELF_FAILURES :: nat where
  "MAX_SELF_FAILURES = 5"

definition initialState :: orchestrator where
  "initialState =
     \<lparr> status = Healthy, instanceId = [], startedAt = 0, consecutiveFailures = 0,
       recoveryAttempts = 0, isPollingActiveField = False, isEnabled = True,
       recentEvents = [], selfFailures = 0, pollIntervalId = False, calls = [] \<rparr>"

text \<open>\<^verbatim>\<open>isPollingActive()\<close> and \<^verbatim>\<open>stopFallbackPolling()\<close> of runtime-checker.ts.\<close>

definition isPollingActive :: "orchestrator \<Rightarrow> bool" where
  "isPollingActive st = pollIntervalId st"

definition stopFallbackPolling :: "orchestrator \<Rightarrow> orchestrator" where
  "stopFallbackPolling st = (if pollIntervalId st then st\<lparr>pollIntervalId := False\<rparr> else st)"

definition disableHealthSystem :: "orchestrator \<Rightarrow> orchestrator" where
  "disableHealthSystem st = stopFallbackPolling (st\<lparr>isEnabled := False\<rparr>)"

text \<open>
  \<^verbatim>\<open>handleSelfError(error)\<close>: the counter is incremented, then \<^verbatim>\<open>console.error\<close>
  is given \<^verbatim>\<open>error.message\<close>, and only then the counter is compared with the
  threshold. When reading the message throws, that TypeError leaves the function.
\<close>

definition handleSelfError :: "thrown \<Rightarrow> orchestrator \<Rightarrow> attempt" where
  "handleSelfError error st =
     (let st1 = st\<lparr>selfFailures := selfFailures st + 1\<rparr> in
      case readMessage error of
        Raises e \<Rightarrow> Raised st1 e
      | Completes m \<Rightarrow>
          (let st2 = called (ConsoleError (selfFailures st1) m) st1 in
           if selfFailures st2 \<ge> MAX_SELF_FAILURES then Done (disableHealthSystem st2)
           else Done st2))"

text \<open>
  \<^verbatim>\<open>recentEvents.unshift(event)\<close>, then \<^verbatim>\<open>pop()\<close> when the length exceeds 50.
\<close>

definition recordEvent :: "HealthEvent \<Rightarrow> orchestrator \<Rightarrow> orchestrator" where
  "recordEvent event st =
     (let evs = event # recentEvents st in
      st\<lparr>recentEvents := (if length evs > 50 then butlast evs else evs)\<rparr>)"

text \<open>\<^verbatim>\<open>handleStatusChange(status, message)\<close>.\<close>

definition handleStatusChange ::
  "collaborators \<Rightarrow> HealthStatus \<Rightarrow> string \<Rightarrow> orchestrator \<Rightarrow> attempt" where
  "handleStatusChange env newStatus reason st =
     (let previousStatus = status st in
      if newStatus \<noteq> previousStatus then
        (let st1 = called (SendToRenderer newStatus previousStatus reason)
                     (st\<lparr>status := newStatus\<rparr>)
         in case sendToRenderer env newStatus previousStatus reason of
              Completes u \<Rightarrow> Done st1
            | Raises e \<Rightarrow> Raised st1 e)
      else Done st)"

definition updateStatus :: "collaborators \<Rightarrow> HealthEvent \<Rightarrow> orchestrator \<Rightarrow> attempt" where
  "updateStatus env event st =
     (let newStatus =
        (if category event = ''critical'' then Unhealthy
         else if category event = ''warning'' \<and> status st = Healthy then Degraded
         else status st)
      in if newStatus \<noteq> status st then handleStatusChange env newStatus (message event) st
         else Done st)"

text \<open>
  The synchronous part of \<^verbatim>\<open>attemptRecovery\<close> (S1, S2) and of
  \<^verbatim>\<open>attemptRecoveryWithUI\<close> (S3, S4): the counter is incremented and the recovery is
  started; both functions catch every error themselves and only log it. What they do
  when the recovery has finished is \<open>recoveryFinished\<close>.
\<close>

definition attemptRecovery :: "StrategyId \<Rightarrow> orchestrator \<Rightarrow> orchestrator" where
  "attemptRecovery strategyId st =
     called (ExecuteRecovery strategyId False) (st\<lparr>recoveryAttempts := recoveryAttempts st + 1\<rparr>)"

definition attemptRecoveryWithUI :: "StrategyId \<Rightarrow> string \<Rightarrow> orchestrator \<Rightarrow> orchestrator" where
  "attemptRecoveryWithUI strategyId errorMessage st =
     called (ExecuteRecoveryWithUI strategyId errorMessage)
       (st\<lparr>recoveryAttempts := recoveryAttempts st + 1\<rparr>)"

definition recoveryFinished :: "collaborators \<Rightarrow> bool \<Rightarrow> orchestrator \<Rightarrow> orchestrator" where
  "recoveryFinished env success st =
     (if success then
        (let st1 = called (UpdateErrorCount 0) (st\<lparr>consecutiveFailures := 0\<rparr>) in
         case updateErrorCount env 0 of
           Completes u \<Rightarrow> st1\<lparr>status := Healthy\<rparr>
         | Raises e \<Rightarrow> st1)
      else st)"

text \<open>The \<^verbatim>\<open>info\<close> block of \<^verbatim>\<open>handleHealthEvent\<close>.\<close>

definition handleInfo :: "collaborators \<Rightarrow> HealthEvent \<Rightarrow> orchestrator \<Rightarrow> attempt" where
  "handleInfo env event st =
     (if category event = ''info''
         \<and> (ev_type event = ''recovery_success'' \<or> ev_type event = ''startup_check'')
      then
        (let st1 = called (UpdateErrorCount 0) (st\<lparr>consecutiveFailures := 0\<rparr>) in
         case updateErrorCount env 0 of
           Completes u \<Rightarrow> Done (st1\<lparr>status := Healthy\<rparr>)
         | Raises e \<Rightarrow> Raised st1 e)
      else Done st)"

text \<open>The \<^verbatim>\<open>critical\<close> block of \<^verbatim>\<open>handleHealthEvent\<close>.\<close>

definition handleCritical :: "collaborators \<Rightarrow> HealthEvent \<Rightarrow> orchestrator \<Rightarrow> attempt" where
  "handleCritical env event st =
     (if category event = ''critical'' then
        (let st1 = st\<lparr>consecutiveFailures := consecutiveFailures st + 1\<rparr>;
             n = consecutiveFailures st1;
             st2 = called (UpdateErrorCount n) st1
         in case updateErrorCount env n of
           Raises e \<Rightarrow> Raised st2 e
         | Completes u \<Rightarrow>
            (let st3 = called (SelectRecoveryStrategy n (source event)) st2 in
             case selectRecoveryStrategy env n (source event) of
               Raises e \<Rightarrow> Raised st3 e
             | Completes None \<Rightarrow> Done st3
             | Completes (Some strategyId) \<Rightarrow>
                (let st4 = called CanRecover st3 in
                 case canRecover env of
                   Raises e \<Rightarrow> Raised st4 e
                 | Completes False \<Rightarrow> Done st4
                 | Completes True \<Rightarrow>
                     (if strategyId = S1 \<or> strategyId = S2
                      then Done (attemptRecovery strategyId st4)
                      else Done (attemptRecoveryWithUI strategyId (message event) st4)))))
      else Done st)"

text \<open>The body of the \<^verbatim>\<open>try\<close> block of \<^verbatim>\<open>handleHealthEvent\<close>.\<close>

definition handleBody :: "collaborators \<Rightarrow> HealthEvent \<Rightarrow> orchestrator \<Rightarrow> attempt" where
  "handleBody env event st =
     andThen (andThen (handleInfo env event (recordEvent event st)) (handleCritical env event))
       (updateStatus env event)"

text \<open>
  \<^verbatim>\<open>handleHealthEvent(event)\<close>. \<open>Raised\<close> is an exception that leaves the handler:
  the one \<^verbatim>\<open>handleSelfError\<close> throws inside the \<^verbatim>\<open>catch\<close> block.
\<close>

definition handleHealthEvent :: "collaborators \<Rightarrow> HealthEvent \<Rightarrow> orchestrator \<Rightarrow> attempt" where
  "handleHealthEvent env event st =
     (if \<not> isEnabled st then Done st
      else case handleBody env event st of
             Done st1 \<Rightarrow> Done st1
           | Raised st1 e \<Rightarrow> handleSelfError e st1)"

text \<open>An exception was raised inside the handler's own path while handling the event.\<close>

definition raisesInternally :: "collaborators \<Rightarrow> HealthEvent \<Rightarrow> orchestrator \<Rightarrow> bool" where
  "raisesInternally env event st = (isEnabled st \<and> hasRaised (handleBody env event st))"

text \<open>The value raised was \<^verbatim>\<open>null\<close> or \<^verbatim>\<open>undefined\<close>.\<close>

definition raisesNullish :: "collaborators \<Rightarrow> HealthEvent \<Rightarrow> orchestrator \<Rightarrow> bool" where
  "raisesNullish env event st =
     (isEnabled st
      \<and> (case handleBody env event st of
            Done st1 \<Rightarrow> False
          | Raised st1 e \<Rightarrow> e = ThrownNullish))"

text \<open>
  A call into the recovery manager raised while the event was handled: the \<^verbatim>\<open>info\<close>
  or the \<^verbatim>\<open>critical\<close> block did not run to its end.
\<close>

definition managerRaises :: "collaborators \<Rightarrow> HealthEvent \<Rightarrow> orchestrator \<Rightarrow> bool" where
  "managerRaises env event st =
     hasRaised (andThen (handleInfo env event (recordEvent event st)) (handleCritical env event))"

text \<open>
  What happens to the orchestrator once it runs: a health event arrives from the event
  bus; a recovery started earlier finishes; the fallback poller (only while its timer is
  set) reports a status, where \<^verbatim>\<open>performFallbackCheck\<close> catches what the callback throws;
  a recovery is triggered by hand (\<^verbatim>\<open>triggerRecovery\<close>, \<^verbatim>\<open>triggerRecoveryWithUI\<close>).
\<close>

datatype action =
    HealthEventEmitted collaborators HealthEvent
  | RecoveryFinished collaborators bool
  | PollReported collaborators HealthStatus string
  | RecoveryTriggered StrategyId bool
  | RecoveryWithUITriggered StrategyId string

fun step :: "action \<Rightarrow> orchestrator \<Rightarrow> orchestrator" where
  "step (HealthEventEmitted env event) st = stateOf (handleHealthEvent env event st)"
| "step (RecoveryFinished env success) st = recoveryFinished env success st"
| "step (PollReported env newStatus reason) st =
     (if pollIntervalId st then stateOf (handleStatusChange env newStatus reason st) else st)"
| "step (RecoveryTriggered strategyId userConsented) st =
     called (ExecuteRecovery strategyId userConsented)
       (st\<lparr>recoveryAttempts := recoveryAttempts st + 1\<rparr>)"
| "step (RecoveryWithUITriggered strategyId errorMessage) st =
     called (ExecuteRecoveryWithUI strategyId errorMessage)
       (st\<lparr>recoveryAttempts := recoveryAttempts st + 1\<rparr>)"

fun run :: "action list \<Rightarrow> orchestrator \<Rightarrow> orchestrator" where
  "run [] st = st"
| "run (a # as) st = run as (step a st)"

text \<open>The number of exceptions raised inside the event-handling path during a run.\<close>

fun raisesIn :: "action \<Rightarrow> orchestrator \<Rightarrow> bool" where
  "raisesIn (HealthEventEmitted env event) st = raisesInternally env event st"
| "raisesIn a st = False"

fun internalExceptions :: "action list \<Rightarrow> orchestrator \<Rightarrow> nat" where
  "internalExceptions [] st = 0"
| "internalExceptions (a # as) st =
     (if raisesIn a st then 1 else 0) + internalExceptions as (step a st)"

text \<open>The number of those exceptions whose value was \<^verbatim>\<open>null\<close> or \<^verbatim>\<open>undefined\<close>.\<close>

fun raisesNullishIn :: "action \<Rightarrow> orchestrator \<Rightarrow> bool" where
  "raisesNullishIn (HealthEventEmitted env event) st = raisesNullish env event st"
| "raisesNullishIn a st = False"

fun nullishExceptions :: "action list \<Rightarrow> orchestrator \<Rightarrow> nat" where
  "nullishExceptions [] st = 0"
| "nullishExceptions (a # as) st =
     (if raisesNullishIn a st then 1 else 0) + nullishExceptions as (step a st)"

text \<open>The number of steps of a run at which \<open>isEnabled\<close> changes from true to false.\<close>

fun disablings :: "action list \<Rightarrow> orchestrator \<Rightarrow> nat" where
  "disablings [] st = 0"
| "disablings (a # as) st =
     (if isEnabled st \<and> \<not> isEnabled (step a st) then 1 else 0) + disablings as (step a st)"


text \<open>The fields that decide whether the handler runs, and the list of events.\<close>

definition sameControl :: "orchestrator \<Rightarrow> orchestrator \<Rightarrow> bool" where
  "sameControl st st1 =
     (isEnabled st1 = isEnabled st \<and> selfFailures st1 = selfFailures st
      \<and> pollIntervalId st1 = pollIntervalId st \<and> recentEvents st1 = recentEvents st)"

text \<open>A state with its list of events blanked, and the same for an attempt.\<close>

definition eraseEvents :: "orchestrator \<Rightarrow> orchestrator" where
  "eraseEvents st = st\<lparr>recentEvents := []\<rparr>"




text \<open>
  What \<^verbatim>\<open>collectDiagnosticReport\<close> (diagnostics/collector.ts) takes from the health
  state: the section \<^verbatim>\<open>health\<close> of the report. The report is what the export of a
  report writes to a file.
\<close>

record ReportHealth =
  lastCheckTime :: string
  rh_consecutiveFailures :: nat
  rh_recoveryAttempts :: nat


text \<open>
  Sample inputs: the state right after a successful \<^verbatim>\<open>initializeHealthSystem\<close>,
  collaborators that return normally, collaborators whose \<^verbatim>\<open>updateErrorCount\<close> throws
  an Error, collaborators whose \<^verbatim>\<open>updateErrorCount\<close> throws \<^verbatim>\<open>undefined\<close>, and one
  event of each category.
\<close>

definition runningState :: orchestrator where
  "runningState =
     initialState\<lparr>instanceId := ''instance-1'', startedAt := 1000,
       isPollingActiveField := True, pollIntervalId := True\<rparr>"

definition quietCollaborators :: collaborators where
  "quietCollaborators =
     \<lparr> updateErrorCount = (\<lambda>n. Completes ()),
       selectRecoveryStrategy = (\<lambda>n src. Completes (Some S1)),
       canRecover = Completes True,
       sendToRenderer = (\<lambda>s p r. Completes ()) \<rparr>"

definition failingCollaborators :: collaborators where
  "failingCollaborators =
     quietCollaborators\<lparr>updateErrorCount := (\<lambda>n. Raises (ThrownError ''failed''))\<rparr>"


definition criticalEvent :: HealthEvent where
  "criticalEvent =
     \<lparr> ev_type = ''process_exit'', category = ''critical'', timestamp = 2000,
       source = ''session-1'', message = ''Process exited with code 1'' \<rparr>"

definition warningEvent :: HealthEvent where
  "warningEvent =
     \<lparr> ev_type = ''renderer_unresponsive'', category = ''warning'', timestamp = 2000,
       source = ''renderer'', message = ''Renderer unresponsive'' \<rparr>"

definition recoveryEvent :: HealthEvent where
  "recoveryEvent =
     \<lparr> ev_type = ''recovery_success'', category = ''info'', timestamp = 3000,
       source = ''recovery'', message = ''Recovered'' \<rparr>"


section \<open>Process registry (services/health/process-guardian)\<close>

datatype ProcessType = V2Session | Tunnel

text \<open>\<^verbatim>\<open>ProcessEntry\<close>; the PID may be missing (the sources test \<^verbatim>\<open>entry.pid\<close>).\<close>

record ProcessEntry =
  entry_id :: string
  entry_pid :: "nat option"
  entry_type :: ProcessType
  entry_instanceId :: string
  entry_startedAt :: nat

record registry =
  processes :: "ProcessEntry list"
  currentInstanceId :: "string option"

text \<open>JavaScript truthiness of an optional PID: present and not 0.\<close>

definition truthyPid :: "nat option \<Rightarrow> bool" where
  "truthyPid p = (case p of Some pid \<Rightarrow> pid \<noteq> 0 | None \<Rightarrow> False)"

text \<open>
  Modelled from the spec: registry.ts of the process guardian is not among the sources.
  \<^verbatim>\<open>getCurrentProcesses()\<close> are the entries tagged with the current instance.
\<close>

definition getCurrentProcesses :: "registry \<Rightarrow> ProcessEntry list" where
  "getCurrentProcesses reg =
     filter (\<lambda>e. currentInstanceId reg = Some (entry_instanceId e)) (processes reg)"

text \<open>
  Modelled from the spec: \<^verbatim>\<open>getOrphanProcesses()\<close> of the absent registry.ts are the
  entries tagged with any other instance.
\<close>

definition getOrphanProcesses :: "registry \<Rightarrow> ProcessEntry list" where
  "getOrphanProcesses reg =
     filter (\<lambda>e. currentInstanceId reg \<noteq> Some (entry_instanceId e)) (processes reg)"

text \<open>
  Modelled from the spec: \<^verbatim>\<open>unregisterProcess(id, type)\<close> of the absent registry.ts is
  an idempotent remove of the entry with that id and type.
\<close>

definition unregisterProcess :: "string \<Rightarrow> ProcessType \<Rightarrow> registry \<Rightarrow> registry" where
  "unregisterProcess ident ty reg =
     reg\<lparr>processes := filter (\<lambda>e. \<not> (entry_id e = ident \<and> entry_type e = ty)) (processes reg)\<rparr>"

text \<open>
  Modelled from the spec: \<^verbatim>\<open>clearOrphanEntries()\<close> of the absent registry.ts removes
  the orphan entries and keeps the others.
\<close>

definition clearOrphanEntries :: "registry \<Rightarrow> registry" where
  "clearOrphanEntries reg = reg\<lparr>processes := getCurrentProcesses reg\<rparr>"

section \<open>Runtime checker (services/health/health-checker/runtime-checker.ts)\<close>

record ChildProcessInfo =
  child_pid :: nat
  child_ppid :: nat
  child_name :: string

text \<open>What a service probe reports: \<^verbatim>\<open>healthy\<close>, \<^verbatim>\<open>data.responseTime\<close>, \<^verbatim>\<open>data.error\<close>.\<close>

record ServiceProbe =
  probe_healthy :: bool
  probe_responseTime :: "nat option"
  probe_error :: "string option"

record ServiceCheckStatus =
  svc_port :: "nat option"
  svc_responsive :: bool
  svc_responseTime :: "nat option"
  svc_error :: "string option"

record ProcessCheckStatus =
  proc_expected :: nat
  proc_actual :: nat
  proc_pids :: "nat list"
  proc_healthy :: bool

text \<open>
  The entries of \<^verbatim>\<open>issues\<close>, one constructor for each message the check pushes:
  \<^verbatim>\<open>PPID scan failed\<close>, \<^verbatim>\<open>Cleaned n dead process entries\<close>,
  \<^verbatim>\<open>n orphan processes detected\<close>, \<^verbatim>\<open>OpenAI Router not responding: e\<close>,
  \<^verbatim>\<open>OpenAI Router check failed: e\<close>, \<^verbatim>\<open>HTTP Server not responding: e\<close>,
  \<^verbatim>\<open>HTTP Server check failed: e\<close>, \<^verbatim>\<open>High memory usage: nMB\<close> (here with the
  heap size in bytes).
\<close>

datatype issue =
    PpidScanFailed
  | CleanedDeadEntries nat
  | OrphansDetected nat
  | RouterNotResponding string
  | RouterCheckFailed string
  | HttpServerNotResponding string
  | HttpServerCheckFailed string
  | HighMemoryUsage nat

record ImmediateCheckResult =
  res_timestamp :: nat
  res_claude :: ProcessCheckStatus
  res_cloudflared :: ProcessCheckStatus
  res_openaiRouter :: ServiceCheckStatus
  res_httpServer :: ServiceCheckStatus
  res_issues :: "issue list"
  res_healthy :: bool
  res_removed :: nat
  res_orphans :: nat

text \<open>
  What one run of the check reads from outside: the clock, the PPID scan of the platform
  operations, the router and server information with the answers of their probes, and
  the heap size in bytes.
\<close>

record checkEnv =
  env_now :: nat
  env_findChildProcesses :: "ChildProcessInfo list outcome"
  env_routerInfo :: "nat option"
  env_checkOpenAIRouter :: "ServiceProbe outcome"
  env_serverRunning :: bool
  env_serverPort :: nat
  env_checkHttpServer :: "ServiceProbe outcome"
  env_heapUsed :: nat

definition MEMORY_WARNING_THRESHOLD_MB :: nat where
  "MEMORY_WARNING_THRESHOLD_MB = 500"

definition MIN_CHECK_INTERVAL_MS :: int where
  "MIN_CHECK_INTERVAL_MS = 2000"

definition pidsNamed :: "string \<Rightarrow> string \<Rightarrow> ChildProcessInfo list \<Rightarrow> nat list" where
  "pidsNamed name exeName children =
     map child_pid (filter (\<lambda>p. child_name p = name \<or> child_name p = exeName) children)"

text \<open>Registry has the entry, the scan does not: \<^verbatim>\<open>entry.pid && !pids.includes(entry.pid)\<close>.\<close>

definition isDeadEntry :: "nat list \<Rightarrow> ProcessEntry \<Rightarrow> bool" where
  "isDeadEntry pids entry =
     (case entry_pid entry of Some pid \<Rightarrow> pid \<noteq> 0 \<and> pid \<notin> set pids | None \<Rightarrow> False)"

text \<open>
  One reconciliation loop: every dead entry of the list is unregistered and counted.
  The result is the registry and the counter.
\<close>

fun removeDead :: "ProcessType \<Rightarrow> nat list \<Rightarrow> ProcessEntry list \<Rightarrow> registry \<times> nat \<Rightarrow> registry \<times> nat" where
  "removeDead ty pids [] (reg, registryRemoved) = (reg, registryRemoved)"
| "removeDead ty pids (entry # rest) (reg, registryRemoved) =
     (if isDeadEntry pids entry
      then removeDead ty pids rest (unregisterProcess (entry_id entry) ty reg, registryRemoved + 1)
      else removeDead ty pids rest (reg, registryRemoved))"

text \<open>\<^verbatim>\<open>entries.map(p => p.pid).filter(Boolean)\<close>.\<close>

definition registeredPids :: "ProcessEntry list \<Rightarrow> nat list" where
  "registeredPids entries =
     concat (map (\<lambda>e. case entry_pid e of Some pid \<Rightarrow> (if pid \<noteq> 0 then [pid] else []) | None \<Rightarrow> [])
       entries)"

definition countOrphans :: "nat list \<Rightarrow> nat list \<Rightarrow> nat" where
  "countOrphans pids registered = length (filter (\<lambda>pid. pid \<notin> set registered) pids)"

text \<open>
  Step 4 for one service: the status and the issues pushed. \<open>info\<close> is the port when
  the service is there; \<^verbatim>\<open>error || 'unknown'\<close> is \<open>errorOrUnknown\<close>.
\<close>

definition errorOrUnknown :: "string option \<Rightarrow> string" where
  "errorOrUnknown e = (case e of Some m \<Rightarrow> (if m = [] then ''unknown'' else m) | None \<Rightarrow> ''unknown'')"

definition checkService ::
  "nat option \<Rightarrow> ServiceProbe outcome \<Rightarrow> (string \<Rightarrow> issue) \<Rightarrow> (string \<Rightarrow> issue)
     \<Rightarrow> ServiceCheckStatus \<times> issue list" where
  "checkService info probe notResponding checkFailed =
     (case info of
        None \<Rightarrow>
          (\<lparr>svc_port = None, svc_responsive = False, svc_responseTime = None, svc_error = None\<rparr>, [])
      | Some port \<Rightarrow>
          (case probe of
             Returns p \<Rightarrow>
               (\<lparr>svc_port = Some port, svc_responsive = probe_healthy p,
                 svc_responseTime = probe_responseTime p, svc_error = probe_error p\<rparr>,
                if \<not> probe_healthy p then [notResponding (errorOrUnknown (probe_error p))] else [])
           | Throws m \<Rightarrow>
               (\<lparr>svc_port = Some port, svc_responsive = False, svc_responseTime = None,
                 svc_error = Some m\<rparr>,
                [checkFailed m])))"

text \<open>
  \<^verbatim>\<open>hasServiceIssues\<close>: a service that is there (router information present, server
  running) is not responsive.
\<close>

definition hasServiceIssues :: "checkEnv \<Rightarrow> ServiceCheckStatus \<Rightarrow> ServiceCheckStatus \<Rightarrow> bool" where
  "hasServiceIssues env routerStatus httpServerStatus =
     ((env_routerInfo env \<noteq> None \<and> \<not> svc_responsive routerStatus)
      \<or> (env_serverRunning env \<and> \<not> svc_responsive httpServerStatus))"

text \<open>The PPID scan of step 1: the children found, and the issue pushed when it throws.\<close>

definition scanChildren :: "checkEnv \<Rightarrow> ChildProcessInfo list \<times> issue list" where
  "scanChildren env =
     (case env_findChildProcesses env of
        Returns cs \<Rightarrow> (cs, [])
      | Throws m \<Rightarrow> ([], [PpidScanFailed]))"

text \<open>
  Steps 2 and 3: the registry is read, dead entries are unregistered and counted, and the
  scanned processes that no registered entry accounts for are counted as orphans. The
  result is the registry after the cleanup, \<^verbatim>\<open>registryRemoved\<close> and
  \<^verbatim>\<open>orphansFound\<close>.
\<close>

definition reconcile :: "nat list \<Rightarrow> nat list \<Rightarrow> registry \<Rightarrow> registry \<times> nat \<times> nat" where
  "reconcile claudeProcesses cloudflaredProcesses reg =
     (let registeredProcesses = getCurrentProcesses reg;
          registeredClaude = filter (\<lambda>p. entry_type p = V2Session) registeredProcesses;
          registeredCloudflared = filter (\<lambda>p. entry_type p = Tunnel) registeredProcesses;
          afterClaude = removeDead V2Session claudeProcesses registeredClaude (reg, 0);
          afterCloudflared =
             removeDead Tunnel cloudflaredProcesses registeredCloudflared afterClaude;
          orphansFound =
             countOrphans claudeProcesses (registeredPids registeredClaude)
             + countOrphans cloudflaredProcesses (registeredPids registeredCloudflared)
      in (fst afterCloudflared, snd afterCloudflared, orphansFound))"

text \<open>Step 6: the memory check.\<close>

definition memoryIssues :: "checkEnv \<Rightarrow> issue list" where
  "memoryIssues env =
     (if env_heapUsed env > MEMORY_WARNING_THRESHOLD_MB * (1024 * 1024)
      then [HighMemoryUsage (env_heapUsed env)] else [])"

text \<open>Step 7, the counts of one kind of process.\<close>

definition processStatus :: "ProcessType \<Rightarrow> nat list \<Rightarrow> registry \<Rightarrow> ProcessCheckStatus" where
  "processStatus ty pids reg =
     (let updatedCount = length (filter (\<lambda>p. entry_type p = ty) (getCurrentProcesses reg))
      in \<lparr> proc_expected = updatedCount, proc_actual = length pids, proc_pids = pids,
           proc_healthy = (updatedCount = length pids) \<rparr>)"

definition doImmediateCheck :: "checkEnv \<Rightarrow> registry \<Rightarrow> ImmediateCheckResult \<times> registry" where
  "doImmediateCheck env reg =
     (let (childProcesses, scanIssues) = scanChildren env;
          claudeProcesses = pidsNamed ''claude'' ''claude.exe'' childProcesses;
          cloudflaredProcesses = pidsNamed ''cloudflared'' ''cloudflared.exe'' childProcesses;
          (reg2, registryRemoved, orphansFound) =
             reconcile claudeProcesses cloudflaredProcesses reg;
          cleanupIssues =
             (if registryRemoved > 0 then [CleanedDeadEntries registryRemoved] else [])
             @ (if orphansFound > 0 then [OrphansDetected orphansFound] else []);
          (routerStatus, routerIssues) =
             checkService (env_routerInfo env) (env_checkOpenAIRouter env)
               RouterNotResponding RouterCheckFailed;
          (httpServerStatus, httpIssues) =
             checkService (if env_serverRunning env then Some (env_serverPort env) else None)
               (env_checkHttpServer env) HttpServerNotResponding HttpServerCheckFailed;
          issues = scanIssues @ cleanupIssues @ routerIssues @ httpIssues @ memoryIssues env;
          healthy =
             (issues = []
              \<or> (registryRemoved > 0 \<and> length issues = 1
                  \<and> \<not> hasServiceIssues env routerStatus httpServerStatus))
      in (\<lparr> res_timestamp = env_now env,
            res_claude = processStatus V2Session claudeProcesses reg2,
            res_cloudflared = processStatus Tunnel cloudflaredProcesses reg2,
            res_openaiRouter = routerStatus,
            res_httpServer = httpServerStatus,
            res_issues = issues,
            res_healthy = healthy,
            res_removed = registryRemoved,
            res_orphans = orphansFound \<rparr>, reg2))"

text \<open>
  The live scanned children of one kind (\<^verbatim>\<open>claudeProcesses\<close> for sessions,
  \<^verbatim>\<open>cloudflaredProcesses\<close> for tunnels).
\<close>

definition scannedPids :: "checkEnv \<Rightarrow> ProcessType \<Rightarrow> nat list" where
  "scannedPids env ty =
     (case ty of
        V2Session \<Rightarrow> pidsNamed ''claude'' ''claude.exe'' (fst (scanChildren env))
      | Tunnel \<Rightarrow> pidsNamed ''cloudflared'' ''cloudflared.exe'' (fst (scanChildren env)))"

text \<open>
  Nothing but the registry is out of order: the scan returns and finds no session or
  tunnel process, each service is absent or answers its probe as healthy, and the heap
  is within the warning threshold.
\<close>

definition serviceFine :: "nat option \<Rightarrow> ServiceProbe outcome \<Rightarrow> bool" where
  "serviceFine info probe =
     (case info of
        None \<Rightarrow> True
      | Some port \<Rightarrow> (case probe of Returns p \<Rightarrow> probe_healthy p | Throws m \<Rightarrow> False))"

definition nothingElseWrong :: "checkEnv \<Rightarrow> bool" where
  "nothingElseWrong env =
     (snd (scanChildren env) = []
      \<and> scannedPids env V2Session = [] \<and> scannedPids env Tunnel = []
      \<and> serviceFine (env_routerInfo env) (env_checkOpenAIRouter env)
      \<and> serviceFine (if env_serverRunning env then Some (env_serverPort env) else None)
           (env_checkHttpServer env)
      \<and> memoryIssues env = [])"

text \<open>The snapshot and the registry that one check leaves, and a sample input.\<close>

definition checkResult :: "checkEnv \<Rightarrow> registry \<Rightarrow> ImmediateCheckResult" where
  "checkResult env reg = fst (doImmediateCheck env reg)"

definition registryAfterCheck :: "checkEnv \<Rightarrow> registry \<Rightarrow> registry" where
  "registryAfterCheck env reg = snd (doImmediateCheck env reg)"

definition sampleEntry :: ProcessEntry where
  "sampleEntry =
     \<lparr> entry_id = ''c1'', entry_pid = Some 1234, entry_type = V2Session,
       entry_instanceId = ''instance-1'', entry_startedAt = 1000 \<rparr>"

definition sampleRegistry :: registry where
  "sampleRegistry = \<lparr> processes = [sampleEntry], currentInstanceId = Some ''instance-1'' \<rparr>"

definition sampleCheckEnv :: checkEnv where
  "sampleCheckEnv =
     \<lparr> env_now = 5000,
       env_findChildProcesses =
         Returns [\<lparr>child_pid = 77, child_ppid = 1, child_name = ''helper''\<rparr>],
       env_routerInfo = None,
       env_checkOpenAIRouter = Throws ''not called'',
       env_serverRunning = False,
       env_serverPort = 0,
       env_checkHttpServer = Throws ''not called'',
       env_heapUsed = 100 * (1024 * 1024) \<rparr>"

section \<open>Single-flight guard of the immediate check (runtime-checker.ts)\<close>

text \<open>
  The module variables \<^verbatim>\<open>lastCheckTime\<close>, \<^verbatim>\<open>isCheckRunning\<close> and
  \<^verbatim>\<open>lastCheckPromise\<close>. A promise is identified by the number of the scan that created
  it; \<open>scansStarted\<close> counts the executions of \<^verbatim>\<open>doImmediateCheck\<close>. Times are
  readings of \<^verbatim>\<open>Date.now()\<close>.
\<close>

record checker =
  lastCheckTime :: "int option"
  isCheckRunning :: bool
  lastCheckPromise :: "nat option"
  scansStarted :: nat

definition initialChecker :: checker where
  "initialChecker =
     \<lparr> lastCheckTime = None, isCheckRunning = False, lastCheckPromise = None, scansStarted = 0 \<rparr>"

text \<open>
  The debounce test
  \<^verbatim>\<open>lastCheckTime && (now - lastCheckTime) < MIN_CHECK_INTERVAL_MS && lastCheckPromise\<close>.
\<close>

definition debounced :: "int \<Rightarrow> checker \<Rightarrow> bool" where
  "debounced now st =
     ((case lastCheckTime st of
         Some t \<Rightarrow> t \<noteq> 0 \<and> now - t < MIN_CHECK_INTERVAL_MS
       | None \<Rightarrow> False)
      \<and> lastCheckPromise st \<noteq> None)"

text \<open>The lock test \<^verbatim>\<open>isCheckRunning && lastCheckPromise\<close>.\<close>

definition locked :: "checker \<Rightarrow> bool" where
  "locked st = (isCheckRunning st \<and> lastCheckPromise st \<noteq> None)"

text \<open>
  The synchronous start of \<^verbatim>\<open>doImmediateCheck\<close>, which runs inside the call: the flag
  and the time stamp are set and a new promise is created. The \<^verbatim>\<open>finally\<close> block runs
  when the scan has settled.
\<close>

definition startImmediateCheck :: "int \<Rightarrow> checker \<Rightarrow> nat \<times> checker" where
  "startImmediateCheck stamp st =
     (scansStarted st + 1,
      st\<lparr>isCheckRunning := True, lastCheckTime := Some stamp,
         scansStarted := scansStarted st + 1\<rparr>)"

definition finishImmediateCheck :: "checker \<Rightarrow> checker" where
  "finishImmediateCheck st = st\<lparr>isCheckRunning := False\<rparr>"

text \<open>
  \<^verbatim>\<open>runImmediateCheck()\<close>: \<open>now\<close> is its reading of the clock, \<open>stamp\<close> the
  reading \<^verbatim>\<open>doImmediateCheck\<close> takes when it starts. The result is the promise
  returned and the module state.
\<close>

definition runImmediateCheck :: "int \<Rightarrow> int \<Rightarrow> checker \<Rightarrow> nat \<times> checker" where
  "runImmediateCheck now stamp st =
     (case lastCheckPromise st of
        Some p \<Rightarrow>
          (if debounced now st then (p, st)
           else if locked st then (p, st)
           else (let (q, st1) = startImmediateCheck stamp st
                 in (q, st1\<lparr>lastCheckPromise := Some q\<rparr>)))
      | None \<Rightarrow>
          (let (q, st1) = startImmediateCheck stamp st
           in (q, st1\<lparr>lastCheckPromise := Some q\<rparr>)))"

text \<open>
  A scan was started and finished at time 1000; the first of two later calls falls into
  its cool-down window, the second does not.
\<close>

definition cooledDown :: checker where
  "cooledDown = finishImmediateCheck (snd (runImmediateCheck 1000 1000 initialChecker))"

section \<open>Platform process operations (process-guardian/platform)\<close>

text \<open>
  The error \<^verbatim>\<open>killProcess\<close> throws:
  \<^verbatim>\<open>new Error(`Failed to terminate process ${pid}`)\<close>.
\<close>

datatype ProcessError = FailedToTerminate nat

record ProcessInfo =
  info_pid :: nat
  info_commandLine :: string
  info_name :: string

text \<open>
  \<^verbatim>\<open>PlatformProcessOps\<close> over a state of the operating system \<open>'w\<close>: a kill changes
  that state, a query reads it. \<^verbatim>\<open>isProcessAlive\<close> never throws.
\<close>

record 'w PlatformProcessOps =
  findByArgs :: "'w \<Rightarrow> string \<Rightarrow> ProcessInfo list outcome"
  isProcessAlive :: "'w \<Rightarrow> nat \<Rightarrow> bool"
  killProcess :: "'w \<Rightarrow> nat \<Rightarrow> string \<Rightarrow> (ProcessError + unit) \<times> 'w"

subsection \<open>Windows (platform/win32.ts)\<close>

text \<open>
  What the Windows implementation asks of the system: running
  \<^verbatim>\<open>taskkill [/F] /PID pid /T\<close> through \<^verbatim>\<open>execAsync\<close> (it resolves, or rejects
  with a message, and leaves a new system state), the probe \<^verbatim>\<open>process.kill(pid, 0)\<close>
  (true when it does not throw), and the PowerShell query behind \<^verbatim>\<open>findByArgs\<close>.
\<close>

record 'w win32System =
  taskkill :: "'w \<Rightarrow> nat \<Rightarrow> bool \<Rightarrow> unit outcome \<times> 'w"
  signalZero :: "'w \<Rightarrow> nat \<Rightarrow> bool"
  queryByArgs :: "'w \<Rightarrow> string \<Rightarrow> ProcessInfo list outcome"

definition win32_isProcessAlive :: "'w win32System \<Rightarrow> 'w \<Rightarrow> nat \<Rightarrow> bool" where
  "win32_isProcessAlive sys w pid = signalZero sys w pid"

definition win32_killProcess ::
  "'w win32System \<Rightarrow> 'w \<Rightarrow> nat \<Rightarrow> string \<Rightarrow> (ProcessError + unit) \<times> 'w" where
  "win32_killProcess sys w pid signal =
     (let forceFlag = (signal = ''SIGKILL'') in
      case taskkill sys w pid forceFlag of
        (Returns u, w1) \<Rightarrow> (Inr (), w1)
      | (Throws m, w1) \<Rightarrow>
          (if \<not> win32_isProcessAlive sys w1 pid then (Inr (), w1)
           else (Inl (FailedToTerminate pid), w1)))"

definition Win32ProcessOps :: "'w win32System \<Rightarrow> 'w PlatformProcessOps" where
  "Win32ProcessOps sys =
     \<lparr> findByArgs = queryByArgs sys,
       isProcessAlive = win32_isProcessAlive sys,
       killProcess = win32_killProcess sys \<rparr>"

text \<open>
  Sample systems whose state is the list of live PIDs. On the first, \<^verbatim>\<open>taskkill\<close>
  reports success and the process keeps running (a process that does not exit when asked
  to close). On the second, \<^verbatim>\<open>taskkill\<close> fails with the given message; the process is
  gone afterwards exactly when \<open>dies\<close> is set.
\<close>

definition stubbornSystem :: "nat list win32System" where
  "stubbornSystem =
     \<lparr> taskkill = (\<lambda>w pid force. (Returns (), w)),
       signalZero = (\<lambda>w pid. pid \<in> set w),
       queryByArgs = (\<lambda>w pat. Returns []) \<rparr>"

definition failingSystem :: "string \<Rightarrow> bool \<Rightarrow> nat list win32System" where
  "failingSystem text dies =
     \<lparr> taskkill = (\<lambda>w pid force. (Throws text, if dies then removeAll pid w else w)),
       signalZero = (\<lambda>w pid. pid \<in> set w),
       queryByArgs = (\<lambda>w pat. Returns []) \<rparr>"

section \<open>Process cleaner (process-guardian/cleaner.ts)\<close>

datatype CleanupMethod = ByPid | ByArgs

record CleanupDetail =
  detail_pid :: nat
  detail_type :: ProcessType
  detail_method :: CleanupMethod

record CleanupResult =
  cleaned :: nat
  failed :: nat
  details :: "CleanupDetail list"

definition HALO_MANAGED_FLAG :: string where
  "HALO_MANAGED_FLAG = ''halo-managed''"

definition HALO_INSTANCE_PREFIX :: string where
  "HALO_INSTANCE_PREFIX = ''halo-instance=''"

definition inferProcessType :: "string \<Rightarrow> ProcessType" where
  "inferProcessType commandLine =
     (if includesStr commandLine ''claude'' \<or> includesStr commandLine ''cli.js'' then V2Session
      else if includesStr commandLine ''tunnel'' \<or> includesStr commandLine ''cloudflared'' then Tunnel
      else V2Session)"

text \<open>
  Modelled from the spec: \<^verbatim>\<open>getCurrentInstanceId()\<close> of registry.ts, not among the
  sources, returns the identifier of the current run, or null before
  \<^verbatim>\<open>markInstanceStart\<close>.
\<close>

definition getCurrentInstanceId :: "registry \<Rightarrow> string option" where
  "getCurrentInstanceId reg = currentInstanceId reg"

text \<open>One kill attempt with SIGTERM and its bookkeeping (the inner \<^verbatim>\<open>try\<close> of both loops).\<close>

definition killAndRecord ::
  "'w PlatformProcessOps \<Rightarrow> nat \<Rightarrow> ProcessType \<Rightarrow> CleanupMethod \<Rightarrow> CleanupResult \<times> 'w
     \<Rightarrow> CleanupResult \<times> 'w" where
  "killAndRecord ops pid ty method rw =
     (case killProcess ops (snd rw) pid ''SIGTERM'' of
        (Inr u, w1) \<Rightarrow>
          ((fst rw)\<lparr>cleaned := cleaned (fst rw) + 1,
                  details := details (fst rw)
                    @ [\<lparr>detail_pid = pid, detail_type = ty, detail_method = method\<rparr>]\<rparr>, w1)
      | (Inl e, w1) \<Rightarrow> ((fst rw)\<lparr>failed := failed (fst rw) + 1\<rparr>, w1))"

text \<open>Step 1, the loop over the orphan entries of the registry.\<close>

fun killByPid ::
  "'w PlatformProcessOps \<Rightarrow> ProcessEntry list \<Rightarrow> CleanupResult \<times> 'w \<Rightarrow> CleanupResult \<times> 'w" where
  "killByPid ops [] rw = rw"
| "killByPid ops (entry # rest) rw =
     (case entry_pid entry of
        None \<Rightarrow> killByPid ops rest rw
      | Some pid \<Rightarrow>
          (if pid = 0 then killByPid ops rest rw
           else if isProcessAlive ops (snd rw) pid
           then killByPid ops rest (killAndRecord ops pid (entry_type entry) ByPid rw)
           else killByPid ops rest rw))"

text \<open>Step 2, the loop over the processes found by their command line.\<close>

fun killByArgs ::
  "'w PlatformProcessOps \<Rightarrow> string \<Rightarrow> ProcessInfo list \<Rightarrow> CleanupResult \<times> 'w
     \<Rightarrow> CleanupResult \<times> 'w" where
  "killByArgs ops currentId [] rw = rw"
| "killByArgs ops currentId (proc # rest) rw =
     (if includesStr (info_commandLine proc) (HALO_INSTANCE_PREFIX @ currentId)
      then killByArgs ops currentId rest rw
      else if list_ex (\<lambda>d. detail_pid d = info_pid proc) (details (fst rw))
      then killByArgs ops currentId rest rw
      else if \<not> isProcessAlive ops (snd rw) (info_pid proc)
      then killByArgs ops currentId rest rw
      else killByArgs ops currentId rest
             (killAndRecord ops (info_pid proc) (inferProcessType (info_commandLine proc)) ByArgs rw))"

definition cleanupOrphans ::
  "'w PlatformProcessOps \<Rightarrow> registry \<Rightarrow> 'w \<Rightarrow> CleanupResult \<times> registry \<times> 'w" where
  "cleanupOrphans ops reg w =
     (let result = \<lparr>cleaned = 0, failed = 0, details = []\<rparr> in
      case getCurrentInstanceId reg of
        None \<Rightarrow> (result, reg, w)
      | Some currentId \<Rightarrow>
          (if currentId = [] then (result, reg, w)
           else
             (let afterPids = killByPid ops (getOrphanProcesses reg) (result, w);
                  afterArgs =
                    (case findByArgs ops (snd afterPids) HALO_MANAGED_FLAG of
                       Returns haloProcesses \<Rightarrow> killByArgs ops currentId haloProcesses afterPids
                     | Throws m \<Rightarrow> afterPids)
              in (fst afterArgs, clearOrphanEntries reg, snd afterArgs))))"

text \<open>
  Nothing is left to clean: no orphan entry of the registry has a live PID, and the scan
  by command line finds no live process of another instance.
\<close>

definition noLiveOrphanEntry :: "'w PlatformProcessOps \<Rightarrow> 'w \<Rightarrow> ProcessEntry list \<Rightarrow> bool" where
  "noLiveOrphanEntry ops w entries =
     list_all (\<lambda>entry. case entry_pid entry of
                          None \<Rightarrow> True
                        | Some pid \<Rightarrow> pid = 0 \<or> \<not> isProcessAlive ops w pid) entries"

definition noLiveForeignProcess :: "'w PlatformProcessOps \<Rightarrow> 'w \<Rightarrow> string \<Rightarrow> bool" where
  "noLiveForeignProcess ops w currentId =
     (case findByArgs ops w HALO_MANAGED_FLAG of
        Returns haloProcesses \<Rightarrow>
          list_all (\<lambda>proc. includesStr (info_commandLine proc) (HALO_INSTANCE_PREFIX @ currentId)
                           \<or> \<not> isProcessAlive ops w (info_pid proc)) haloProcesses
      | Throws m \<Rightarrow> True)"

text \<open>
  A sample: the registry holds an entry of an earlier instance whose process cannot be
  killed (the command fails and the process stays); no process carries the marker.
\<close>

definition orphanEntry :: ProcessEntry where
  "orphanEntry =
     \<lparr> entry_id = ''old-session'', entry_pid = Some 4242, entry_type = V2Session,
       entry_instanceId = ''instance-0'', entry_startedAt = 10 \<rparr>"

definition orphanRegistry :: registry where
  "orphanRegistry =
     \<lparr> processes = [orphanEntry, sampleEntry], currentInstanceId = Some ''instance-1'' \<rparr>"

definition unkillableOps :: "nat list PlatformProcessOps" where
  "unkillableOps = Win32ProcessOps (failingSystem ''Access is denied'' False)"

section \<open>Startup checker (services/health/health-checker/startup-checker.ts)\<close>

datatype Severity = SevCritical | SevWarning | SevInfo

text \<open>\<^verbatim>\<open>ProbeResult\<close>; \<open>pr_errors\<close> is \<^verbatim>\<open>data?.errors\<close>.\<close>

record ProbeResult =
  pr_name :: string
  pr_healthy :: bool
  pr_severity :: Severity
  pr_message :: string
  pr_timestamp :: nat
  pr_errors :: "string list option"

text \<open>
  A promise settles after some milliseconds, resolved with a value or rejected with a
  thrown value, or never settles. Calling a probe function throws at once or gives a
  promise.
\<close>

datatype 'a promise = Settles nat "'a completion" | Never

datatype 'a invocation = ThrowsSync thrown | Gives "'a promise"

text \<open>
  \<^verbatim>\<open>withTimeout(promise, timeoutMs)\<close>: the race between the promise and a timer that
  rejects with \<^verbatim>\<open>new Error('Timeout')\<close>. The promise wins when it settles no later
  than the timer fires; what it rejects with is thrown again as it is. The result is what
  awaiting the race gives.
\<close>

definition withTimeout :: "'a promise \<Rightarrow> nat \<Rightarrow> 'a completion" where
  "withTimeout p timeoutMs =
     (case p of
        Settles t r \<Rightarrow> (if t \<le> timeoutMs then r else Raises (ThrownError ''Timeout''))
      | Never \<Rightarrow> Raises (ThrownError ''Timeout''))"

definition PROBE_TIMEOUT_MS :: nat where
  "PROBE_TIMEOUT_MS = 10000"

text \<open>
  \<^verbatim>\<open>safeProbe(name, probeFn)\<close>; \<open>now\<close> is the clock reading of the \<^verbatim>\<open>catch\<close>
  block. The block builds the result from \<^verbatim>\<open>(error as Error).message\<close>; when that
  read throws, the TypeError is what awaiting \<^verbatim>\<open>safeProbe\<close> raises.
\<close>

definition safeProbe ::
  "string \<Rightarrow> nat \<Rightarrow> ProbeResult invocation \<Rightarrow> ProbeResult completion" where
  "safeProbe name now probeFn =
     (case (case probeFn of
              ThrowsSync e \<Rightarrow> Raises e
            | Gives p \<Rightarrow> withTimeout p PROBE_TIMEOUT_MS) of
        Completes r \<Rightarrow> Completes r
      | Raises error \<Rightarrow>
          (case readMessage error of
             Raises e \<Rightarrow> Raises e
           | Completes m \<Rightarrow>
               Completes \<lparr> pr_name = name, pr_healthy = True, pr_severity = SevWarning,
                           pr_message = ''Probe failed: '' @ m, pr_timestamp = now,
                           pr_errors = None \<rparr>))"

definition determineOverallStatus :: "ProbeResult list \<Rightarrow> HealthStatus" where
  "determineOverallStatus probes =
     (let hasCritical = list_ex (\<lambda>p. \<not> pr_healthy p \<and> pr_severity p = SevCritical) probes;
          hasWarning = list_ex (\<lambda>p. \<not> pr_healthy p \<and> pr_severity p = SevWarning) probes
      in if hasCritical then Unhealthy else if hasWarning then Degraded else Healthy)"

record StartupCheckResult =
  sc_status :: HealthStatus
  sc_probes :: "ProbeResult list"

text \<open>
  \<^verbatim>\<open>Promise.all\<close> over the four wrapped probes: all results in order, or a rejection
  (here the first in order; the \<^verbatim>\<open>catch\<close> block that receives it only logs it).
\<close>

fun promiseAll :: "'a completion list \<Rightarrow> 'a list completion" where
  "promiseAll [] = Completes []"
| "promiseAll (Raises e # rest) = Raises e"
| "promiseAll (Completes r # rest) =
     (case promiseAll rest of Completes rs \<Rightarrow> Completes (r # rs) | Raises e \<Rightarrow> Raises e)"

text \<open>
  \<^verbatim>\<open>runStartupChecks()\<close>: \<open>lastExit\<close> is what \<^verbatim>\<open>wasLastExitClean()\<close> of the process
  guardian does, the four invocations are what the config, port, disk and process probes
  do. The results are pushed to \<^verbatim>\<open>probes\<close> after \<^verbatim>\<open>Promise.all\<close> has been awaited;
  the outer \<^verbatim>\<open>catch\<close> returns the status healthy with the probes pushed so far. The
  loop that logs the results reads them only.
\<close>

definition runStartupChecks ::
  "bool completion \<Rightarrow> nat \<Rightarrow> ProbeResult invocation \<Rightarrow> ProbeResult invocation
     \<Rightarrow> ProbeResult invocation \<Rightarrow> ProbeResult invocation \<Rightarrow> StartupCheckResult" where
  "runStartupChecks lastExit now runConfigProbe runPortProbe runDiskProbe runProcessProbe =
     (case lastExit of
        Raises e \<Rightarrow> \<lparr>sc_status = Healthy, sc_probes = []\<rparr>
      | Completes lastExitClean \<Rightarrow>
          (case promiseAll
                  [safeProbe ''config'' now runConfigProbe,
                   safeProbe ''port'' now runPortProbe,
                   safeProbe ''disk'' now runDiskProbe,
                   safeProbe ''process'' now runProcessProbe] of
             Raises e \<Rightarrow> \<lparr>sc_status = Healthy, sc_probes = []\<rparr>
           | Completes probes \<Rightarrow>
               \<lparr>sc_status = determineOverallStatus probes, sc_probes = probes\<rparr>))"

text \<open>
  What the underlying call fails with, if it fails: the value it throws at once or
  rejects with in time, or the timer's error when it takes longer than the limit.
\<close>

definition failure :: "'a invocation \<Rightarrow> nat \<Rightarrow> thrown option" where
  "failure probeFn timeoutMs =
     (case probeFn of
        ThrowsSync e \<Rightarrow> Some e
      | Gives p \<Rightarrow>
          (case withTimeout p timeoutMs of Raises e \<Rightarrow> Some e | Completes r \<Rightarrow> None))"

text \<open>
  Sample probes: one that answers after 15 seconds, one that answers in 20 ms, one whose
  promise is rejected with \<^verbatim>\<open>undefined\<close> after 5 ms, and a critical answer.
\<close>

definition healthyAnswer :: ProbeResult where
  "healthyAnswer =
     \<lparr> pr_name = ''port'', pr_healthy = True, pr_severity = SevInfo,
       pr_message = ''Port available'', pr_timestamp = 20, pr_errors = None \<rparr>"


definition slowProbe :: "ProbeResult invocation" where
  "slowProbe = Gives (Settles 15000 (Completes healthyAnswer))"




section \<open>Config probe (services/health/health-checker/probes/config-probe.ts)\<close>

text \<open>
  A value produced by \<^verbatim>\<open>JSON.parse\<close>. A number is the real it denotes; the probe
  only compares numbers and tests them for zero. An object is its list of members in
  the order of the text, where a later duplicate of a key wins. \<^verbatim>\<open>undefined\<close> is
  \<open>None\<close> of \<open>json option\<close>.
\<close>

datatype json =
    JNull
  | JBool bool
  | JNum real
  | JStr string
  | JArr "json list"
  | JObj "(string \<times> json) list"

text \<open>
  Reading a property of a value that is neither null nor undefined. Only an object has
  members of its own; the names the probe reads (\<^verbatim>\<open>aiSources\<close>, \<^verbatim>\<open>permissions\<close>,
  \<^verbatim>\<open>version\<close>, \<^verbatim>\<open>currentId\<close>, \<^verbatim>\<open>current\<close>, \<^verbatim>\<open>sources\<close>, \<^verbatim>\<open>id\<close>,
  \<^verbatim>\<open>authType\<close>, \<^verbatim>\<open>apiKey\<close>, \<^verbatim>\<open>accessToken\<close>, \<^verbatim>\<open>custom\<close>) are not inherited
  from a prototype. For the one computed name, \<^verbatim>\<open>aiSources[currentSource]\<close>, an
  inherited property is a function or a prototype object, which has no
  \<^verbatim>\<open>accessToken\<close>, as \<open>None\<close> has none.
\<close>

definition member :: "json \<Rightarrow> string \<Rightarrow> json option" where
  "member v key = (case v of JObj kvs \<Rightarrow> map_of (rev kvs) key | _ \<Rightarrow> None)"

text \<open>Optional chaining \<^verbatim>\<open>v?.key\<close>.\<close>

definition optMember :: "json option \<Rightarrow> string \<Rightarrow> json option" where
  "optMember v key =
     (case v of None \<Rightarrow> None | Some JNull \<Rightarrow> None | Some x \<Rightarrow> member x key)"

text \<open>JavaScript truthiness, \<^verbatim>\<open>typeof v === 'string'\<close> and \<^verbatim>\<open>typeof v === 'object'\<close>.\<close>

definition truthy :: "json option \<Rightarrow> bool" where
  "truthy v =
     (case v of
        None \<Rightarrow> False
      | Some JNull \<Rightarrow> False
      | Some (JBool b) \<Rightarrow> b
      | Some (JNum n) \<Rightarrow> n \<noteq> 0
      | Some (JStr s) \<Rightarrow> s \<noteq> []
      | Some (JArr xs) \<Rightarrow> True
      | Some (JObj kvs) \<Rightarrow> True)"

definition typeofString :: "json option \<Rightarrow> bool" where
  "typeofString v = (case v of Some (JStr s) \<Rightarrow> True | _ \<Rightarrow> False)"

definition typeofObject :: "json option \<Rightarrow> bool" where
  "typeofObject v =
     (case v of Some JNull \<Rightarrow> True | Some (JArr xs) \<Rightarrow> True | Some (JObj kvs) \<Rightarrow> True
      | _ \<Rightarrow> False)"

text \<open>
  \<^verbatim>\<open>!!(v && typeof v === 'string' && v.length > 0)\<close>, which is also
  \<^verbatim>\<open>!!(v && typeof v === 'string')\<close>: a string that is not empty.
\<close>

definition nonEmptyString :: "json option \<Rightarrow> bool" where
  "nonEmptyString v = (case v of Some (JStr s) \<Rightarrow> s \<noteq> [] | _ \<Rightarrow> False)"

text \<open>
  Strict equality \<^verbatim>\<open>===\<close> of two values read from different places of the parsed
  text: primitives by value, while two arrays or objects are different references.
\<close>

definition strictEquals :: "json option \<Rightarrow> json option \<Rightarrow> bool" where
  "strictEquals a b =
     (case (a, b) of
        (None, None) \<Rightarrow> True
      | (Some JNull, Some JNull) \<Rightarrow> True
      | (Some (JBool x), Some (JBool y)) \<Rightarrow> x = y
      | (Some (JNum x), Some (JNum y)) \<Rightarrow> x = y
      | (Some (JStr x), Some (JStr y)) \<Rightarrow> x = y
      | _ \<Rightarrow> False)"

text \<open>
  \<^verbatim>\<open>sources.find(s => s.id === currentId)\<close> on an array: reading \<^verbatim>\<open>s.id\<close> of a null
  element throws a TypeError (whose text is the engine's).
\<close>

fun findSource :: "json list \<Rightarrow> json option \<Rightarrow> json option outcome" where
  "findSource [] currentId = Returns None"
| "findSource (s # rest) currentId =
     (if s = JNull then Throws ''Cannot read properties of null''
      else if strictEquals (member s ''id'') currentId then Returns (Some s)
      else findSource rest currentId)"

definition isV2 :: "json option \<Rightarrow> bool" where
  "isV2 aiSources = (optMember aiSources ''version'' = Some (JNum 2))"

definition hasPermissions :: "json \<Rightarrow> bool" where
  "hasPermissions config =
     (truthy (member config ''permissions'') \<and> typeofObject (member config ''permissions''))"

definition hasAiSourcesCurrent :: "json option \<Rightarrow> bool" where
  "hasAiSourcesCurrent aiSources =
     (if isV2 aiSources then optMember aiSources ''currentId'' \<noteq> None
      else truthy aiSources \<and> typeofString (optMember aiSources ''current''))"

text \<open>The v2 branch of the API key check; \<^verbatim>\<open>sources?.find\<close> of what is not an array throws.\<close>

definition apiKeyConfiguredV2 :: "json option \<Rightarrow> bool outcome" where
  "apiKeyConfiguredV2 aiSources =
     (let sources = optMember aiSources ''sources'';
          currentId = optMember aiSources ''currentId''
      in case (case sources of
                 None \<Rightarrow> Returns None
               | Some JNull \<Rightarrow> Returns None
               | Some (JArr xs) \<Rightarrow> findSource xs currentId
               | Some other \<Rightarrow> Throws ''sources?.find is not a function'') of
           Throws m \<Rightarrow> Throws m
         | Returns None \<Rightarrow> Returns False
         | Returns (Some currentSource) \<Rightarrow>
             (if truthy (Some currentSource) then
                (let authType = member currentSource ''authType'' in
                 if authType = Some (JStr ''api-key'')
                 then Returns (nonEmptyString (member currentSource ''apiKey''))
                 else if authType = Some (JStr ''oauth'')
                 then Returns (nonEmptyString (member currentSource ''accessToken''))
                 else Returns False)
              else Returns False))"

text \<open>
  The v1 branch. When \<^verbatim>\<open>current\<close> is not a string, the name looked up is the
  JavaScript conversion of the value to a property key, the parameter \<open>toPropertyKey\<close>.
\<close>

definition apiKeyConfiguredV1 :: "(json \<Rightarrow> string) \<Rightarrow> json option \<Rightarrow> bool" where
  "apiKeyConfiguredV1 toPropertyKey aiSources =
     (let currentSource = optMember aiSources ''current'' in
      if currentSource = Some (JStr ''custom'')
      then nonEmptyString (optMember (optMember aiSources ''custom'') ''apiKey'')
      else if truthy currentSource
      then (let key = (case currentSource of Some (JStr s) \<Rightarrow> s | Some v \<Rightarrow> toPropertyKey v
                       | None \<Rightarrow> [])
            in nonEmptyString (optMember (optMember aiSources key) ''accessToken''))
      else False)"

definition credentialCheck :: "(json \<Rightarrow> string) \<Rightarrow> json option \<Rightarrow> bool outcome" where
  "credentialCheck toPropertyKey aiSources =
     (if isV2 aiSources then apiKeyConfiguredV2 aiSources
      else Returns (apiKeyConfiguredV1 toPropertyKey aiSources))"

text \<open>
  The configuration file as the probe finds it: missing; there but not readable as JSON
  (\<^verbatim>\<open>readFileSync\<close> or \<^verbatim>\<open>JSON.parse\<close> throws, with the message); or parsed.
\<close>

datatype configFile = Missing | Unparsable string | Parsed json

record ConfigProbeResult =
  cp_name :: string
  cp_healthy :: bool
  cp_severity :: Severity
  cp_message :: string
  cp_fileExists :: bool
  cp_jsonValid :: bool
  cp_criticalFieldsPresent :: bool
  cp_apiKeyConfigured :: bool
  cp_errors :: "string list"

text \<open>The result of the outer \<^verbatim>\<open>catch\<close>, with the flags as they stand at the throw.\<close>

definition unexpectedError :: "bool \<Rightarrow> string list \<Rightarrow> string \<Rightarrow> ConfigProbeResult" where
  "unexpectedError criticalFieldsPresent errors m =
     \<lparr> cp_name = ''config'', cp_healthy = False, cp_severity = SevCritical,
       cp_message = ''Config check failed: '' @ m,
       cp_fileExists = True, cp_jsonValid = True,
       cp_criticalFieldsPresent = criticalFieldsPresent, cp_apiKeyConfigured = False,
       cp_errors = errors @ [''Unexpected error: '' @ m] \<rparr>"

definition runConfigProbe :: "(json \<Rightarrow> string) \<Rightarrow> configFile \<Rightarrow> ConfigProbeResult" where
  "runConfigProbe toPropertyKey file =
     (case file of
        Missing \<Rightarrow>
          \<lparr> cp_name = ''config'', cp_healthy = False, cp_severity = SevInfo,
            cp_message = ''Config file not found, will be created on first launch'',
            cp_fileExists = False, cp_jsonValid = False,
            cp_criticalFieldsPresent = False, cp_apiKeyConfigured = False,
            cp_errors = [''Config file does not exist''] \<rparr>
      | Unparsable m \<Rightarrow>
          \<lparr> cp_name = ''config'', cp_healthy = False, cp_severity = SevCritical,
            cp_message = ''Config file is corrupted (invalid JSON)'',
            cp_fileExists = True, cp_jsonValid = False,
            cp_criticalFieldsPresent = False, cp_apiKeyConfigured = False,
            cp_errors = [''JSON parse error: '' @ m] \<rparr>
      | Parsed config \<Rightarrow>
          (if config = JNull
           then unexpectedError False [] ''Cannot read properties of null''
           else
             (let aiSources = member config ''aiSources'';
                  criticalFieldsPresent = (hasAiSourcesCurrent aiSources \<and> hasPermissions config);
                  errors =
                    (if \<not> hasAiSourcesCurrent aiSources
                     then [if isV2 aiSources then ''Missing aiSources.currentId field''
                           else ''Missing aiSources.current field'']
                     else [])
                    @ (if \<not> hasPermissions config then [''Missing permissions field''] else [])
              in case credentialCheck toPropertyKey aiSources of
                   Throws m \<Rightarrow> unexpectedError criticalFieldsPresent errors m
                 | Returns apiKeyConfigured \<Rightarrow>
                     (let healthy = criticalFieldsPresent;
                          severity = (if \<not> healthy then SevCritical
                                      else if \<not> apiKeyConfigured then SevWarning else SevInfo);
                          message = (if \<not> criticalFieldsPresent
                                     then ''Config file missing critical fields''
                                     else if \<not> apiKeyConfigured then ''No API key configured''
                                     else ''Config file is healthy'')
                      in \<lparr> cp_name = ''config'', cp_healthy = healthy, cp_severity = severity,
                           cp_message = message,
                           cp_fileExists = True, cp_jsonValid = True,
                           cp_criticalFieldsPresent = criticalFieldsPresent,
                           cp_apiKeyConfigured = apiKeyConfigured,
                           cp_errors = errors \<rparr>))))"

text \<open>
  Sample configurations: a v2 configuration with its critical fields whose source has no
  key; the same with \<^verbatim>\<open>sources\<close> the number 5; and a key conversion for the samples,
  none of which reaches it.
\<close>

definition noKeyConfig :: json where
  "noKeyConfig =
     JObj [(''aiSources'',
              JObj [(''version'', JNum 2), (''currentId'', JStr ''a''),
                    (''sources'',
                       JArr [JObj [(''id'', JStr ''a''), (''authType'', JStr ''api-key''),
                                   (''apiKey'', JStr [])]])]),
           (''permissions'', JObj [])]"

definition badSourcesConfig :: json where
  "badSourcesConfig =
     JObj [(''aiSources'',
              JObj [(''version'', JNum 2), (''currentId'', JStr ''a''), (''sources'', JNum 5)]),
           (''permissions'', JObj [])]"

definition sampleKey :: "json \<Rightarrow> string" where
  "sampleKey v = ''[object Object]''"

chapter \<open>The properties\<close>

section \<open>Properties of URL normalisation\<close>

lemma trimSlash_idem: "trimSlash (trimSlash s) = trimSlash s"
proof -
  have "dropWhile P (dropWhile P xs) = dropWhile P xs" for P and xs :: "'a list"
    by (induction xs) auto
  then show ?thesis by (simp add: trimSlash_def)
qed

lemma trimSlash_no_trailing:
  assumes "s \<noteq> []" and "last s \<noteq> CHR ''/''"
  shows "trimSlash s = s"
proof -
  from assms have "rev s \<noteq> []" and "hd (rev s) \<noteq> CHR ''/''"
    by (simp_all add: hd_rev)
  then have "dropWhile (\<lambda>c. c = CHR ''/'') (rev s) = rev s"
    by (cases "rev s") auto
  then show ?thesis by (simp add: trimSlash_def)
qed

lemma endsWith_append: "endsWith (t @ suffix) suffix"
  by (simp add: endsWith_def)

lemma endsWith_last:
  assumes "endsWith s suffix" and "suffix \<noteq> []"
  shows "s \<noteq> [] \<and> last s = last suffix"
proof -
  from assms have eq: "drop (length s - length suffix) s = suffix"
    by (simp add: endsWith_def)
  with assms(2) have ne: "drop (length s - length suffix) s \<noteq> []" by simp
  then have "s \<noteq> []" by auto
  moreover from ne have "last (drop (length s - length suffix) s) = last s"
    by (simp add: last_drop)
  ultimately show ?thesis using eq by simp
qed

lemma trimSlash_full_endpoint:
  assumes "endsWith s ''/chat/completions'' \<or> endsWith s ''/responses''"
  shows "trimSlash s = s"
proof -
  from assms have "s \<noteq> [] \<and> last s = CHR ''s''"
    using endsWith_last [of s "''/chat/completions''"] endsWith_last [of s "''/responses''"]
    by auto
  then show ?thesis by (intro trimSlash_no_trailing) auto
qed

lemma normalizeApiUrl_openai_endpoint:
  "endsWith (normalizeApiUrl u OpenAI) ''/chat/completions''
   \<or> endsWith (normalizeApiUrl u OpenAI) ''/responses''"
  unfolding normalizeApiUrl_def Let_def
  by (simp only: provider.simps if_False endsWith_append split: if_split) blast

lemma normalizeApiUrl_fixpoint:
  assumes "endsWith s ''/chat/completions'' \<or> endsWith s ''/responses''"
  shows "normalizeApiUrl s OpenAI = s"
  using assms trimSlash_full_endpoint [OF assms]
  by (simp add: normalizeApiUrl_def Let_def)

text \<open>
  C10. \<^verbatim>\<open>normalizeApiUrl\<close> is idempotent for both providers, and for provider
  \<^verbatim>\<open>openai\<close> the result always ends with \<^verbatim>\<open>/chat/completions\<close> or
  \<^verbatim>\<open>/responses\<close> and is returned unchanged by a second application.
\<close>

theorem normalizeApiUrl_idempotent:
  "normalizeApiUrl (normalizeApiUrl u p) p = normalizeApiUrl u p
   \<and> (endsWith (normalizeApiUrl u OpenAI) ''/chat/completions''
      \<or> endsWith (normalizeApiUrl u OpenAI) ''/responses'')
   \<and> normalizeApiUrl (normalizeApiUrl u OpenAI) OpenAI = normalizeApiUrl u OpenAI"
proof -
  have openai: "normalizeApiUrl (normalizeApiUrl u OpenAI) OpenAI = normalizeApiUrl u OpenAI"
    by (rule normalizeApiUrl_fixpoint) (rule normalizeApiUrl_openai_endpoint)
  have anthropic:
    "normalizeApiUrl (normalizeApiUrl u Anthropic) Anthropic = normalizeApiUrl u Anthropic"
    by (simp add: normalizeApiUrl_def trimSlash_idem)
  have "normalizeApiUrl (normalizeApiUrl u p) p = normalizeApiUrl u p"
    by (cases p) (simp_all only: openai anthropic)
  with openai normalizeApiUrl_openai_endpoint [of u] show ?thesis by blast
qed

section \<open>Properties of the orchestrator\<close>

lemma sameControl_trans: "sameControl a b \<Longrightarrow> sameControl b c \<Longrightarrow> sameControl a c"
  by (simp add: sameControl_def)

lemma handleStatusChange_control: "sameControl st (stateOf (handleStatusChange env s r st))"
  by (simp add: handleStatusChange_def sameControl_def stateOf_def called_def Let_def
      split: completion.splits)

lemma updateStatus_control: "sameControl st (stateOf (updateStatus env e st))"
  using handleStatusChange_control [of st env]
  by (simp add: updateStatus_def Let_def sameControl_def stateOf_def)

lemma handleInfo_control: "sameControl st (stateOf (handleInfo env e st))"
  by (simp add: handleInfo_def sameControl_def stateOf_def called_def Let_def
      split: completion.splits)

lemma handleCritical_control: "sameControl st (stateOf (handleCritical env e st))"
  by (simp add: handleCritical_def attemptRecovery_def attemptRecoveryWithUI_def
      sameControl_def stateOf_def called_def Let_def
      split: completion.splits option.splits bool.splits)

lemma andThen_control:
  assumes "sameControl st (stateOf a)" and "\<And>s. sameControl s (stateOf (f s))"
  shows "sameControl st (stateOf (andThen a f))"
proof (cases a)
  case (Done s)
  with assms(1) have "sameControl st s" by (simp add: stateOf_def)
  moreover have "sameControl s (stateOf (f s))" by (rule assms(2))
  ultimately show ?thesis using Done by (auto simp: andThen_def intro: sameControl_trans)
next
  case (Raised s e)
  with assms(1) show ?thesis by (simp add: andThen_def stateOf_def)
qed

lemma handleBody_control:
  "sameControl (recordEvent e st) (stateOf (handleBody env e st))"
  unfolding handleBody_def
  by (intro andThen_control handleInfo_control handleCritical_control updateStatus_control)

lemma handleBody_keeps:
  "isEnabled (stateOf (handleBody env e st)) = isEnabled st"
  "selfFailures (stateOf (handleBody env e st)) = selfFailures st"
  "pollIntervalId (stateOf (handleBody env e st)) = pollIntervalId st"
  "recentEvents (stateOf (handleBody env e st)) = recentEvents (recordEvent e st)"
  using handleBody_control [of e st env]
  by (simp_all add: sameControl_def recordEvent_def Let_def)

lemma handleSelfError_fields:
  "selfFailures (stateOf (handleSelfError e st)) = selfFailures st + 1"
  "isEnabled (stateOf (handleSelfError e st))
     = (isEnabled st \<and> (e = ThrownNullish \<or> selfFailures st + 1 < 5))"
  "pollIntervalId (stateOf (handleSelfError e st))
     = (pollIntervalId st \<and> (e = ThrownNullish \<or> selfFailures st + 1 < 5))"
  "recentEvents (stateOf (handleSelfError e st)) = recentEvents st"
  "status (stateOf (handleSelfError e st)) = status st"
  "consecutiveFailures (stateOf (handleSelfError e st)) = consecutiveFailures st"
  by (cases e; auto simp: handleSelfError_def readMessage_def disableHealthSystem_def
      stopFallbackPolling_def MAX_SELF_FAILURES_def called_def stateOf_def Let_def)+

lemma handleHealthEvent_state:
  "stateOf (handleHealthEvent env e st) =
     (if \<not> isEnabled st then st
      else case handleBody env e st of
             Done st1 \<Rightarrow> st1
           | Raised st1 x \<Rightarrow> stateOf (handleSelfError x st1))"
  by (simp add: handleHealthEvent_def stateOf_def split: attempt.splits)

lemma step_quiet:
  assumes "\<not> raisesIn a st"
  shows "isEnabled (step a st) = isEnabled st \<and> selfFailures (step a st) = selfFailures st
     \<and> pollIntervalId (step a st) = pollIntervalId st"
proof (cases a)
  case a: (HealthEventEmitted env e)
  show ?thesis
  proof (cases "isEnabled st")
    case False
    with a show ?thesis by (simp add: handleHealthEvent_state)
  next
    case True
    with assms a obtain s where b: "handleBody env e st = Done s"
      by (cases "handleBody env e st") (simp_all add: raisesInternally_def hasRaised_def)
    with handleBody_keeps(1,2,3) [of env e st]
    have "isEnabled s = isEnabled st" "selfFailures s = selfFailures st"
      "pollIntervalId s = pollIntervalId st"
      by (simp_all add: stateOf_def)
    with a b True show ?thesis by (simp add: handleHealthEvent_state)
  qed
next
  case (RecoveryFinished env ok)
  then show ?thesis
    by (simp add: recoveryFinished_def called_def Let_def split: completion.splits)
next
  case (PollReported env s r)
  then show ?thesis
    using handleStatusChange_control [of st env s r] by (simp add: sameControl_def)
next
  case (RecoveryTriggered sid c)
  then show ?thesis by (simp add: called_def)
next
  case (RecoveryWithUITriggered sid m)
  then show ?thesis by (simp add: called_def)
qed

lemma step_raising:
  assumes "raisesIn a st"
  shows "selfFailures (step a st) = selfFailures st + 1
     \<and> isEnabled (step a st) = (raisesNullishIn a st \<or> selfFailures st + 1 < 5)
     \<and> pollIntervalId (step a st)
         = (pollIntervalId st \<and> (raisesNullishIn a st \<or> selfFailures st + 1 < 5))"
proof -
  from assms obtain env e where a: "a = HealthEventEmitted env e"
    by (cases a) simp_all
  with assms have en: "isEnabled st" and r: "hasRaised (handleBody env e st)"
    by (simp_all add: raisesInternally_def)
  from r obtain s x where b: "handleBody env e st = Raised s x"
    by (cases "handleBody env e st") (simp_all add: hasRaised_def)
  with handleBody_keeps(1,2,3) [of env e st]
  have k: "isEnabled s = isEnabled st" "selfFailures s = selfFailures st"
    "pollIntervalId s = pollIntervalId st"
    by (simp_all add: stateOf_def)
  from en b have n: "raisesNullishIn a st = (x = ThrownNullish)"
    by (simp add: a raisesNullish_def)
  from a en b k n show ?thesis
    by (simp add: handleHealthEvent_state handleSelfError_fields)
qed

lemma disabled_no_raise: "\<not> isEnabled st \<Longrightarrow> \<not> raisesIn a st \<and> \<not> raisesNullishIn a st"
  by (cases a) (simp_all add: raisesInternally_def raisesNullish_def)


lemma run_disabled:
  "\<not> isEnabled st \<Longrightarrow>
     \<not> isEnabled (run as st) \<and> pollIntervalId (run as st) = pollIntervalId st
     \<and> selfFailures (run as st) = selfFailures st
     \<and> internalExceptions as st = 0 \<and> disablings as st = 0"
proof (induction as arbitrary: st)
  case Nil
  then show ?case by simp
next
  case (Cons a as)
  from Cons.prems disabled_no_raise [of st a] have q: "\<not> raisesIn a st" by simp
  from step_quiet [OF q] Cons.prems have d: "\<not> isEnabled (step a st)" by simp
  from Cons.IH [OF d] step_quiet [OF q] q Cons.prems show ?case by simp
qed

lemma run_enabled:
  "isEnabled st \<Longrightarrow> selfFailures st < 5 \<Longrightarrow> nullishExceptions as st = 0 \<Longrightarrow>
     (isEnabled (run as st) \<longleftrightarrow> selfFailures st + internalExceptions as st < 5)
     \<and> selfFailures st + internalExceptions as st \<le> 5
     \<and> selfFailures (run as st) = selfFailures st + internalExceptions as st
     \<and> (\<not> isEnabled (run as st) \<longrightarrow> \<not> pollIntervalId (run as st))
     \<and> disablings as st = (if isEnabled (run as st) then 0 else 1)"
proof (induction as arbitrary: st)
  case Nil
  then show ?case by simp
next
  case (Cons a as)
  from Cons.prems(3) have nn: "\<not> raisesNullishIn a st"
    and rest: "nullishExceptions as (step a st) = 0"
    by (simp_all split: if_splits)
  show ?case
  proof (cases "raisesIn a st")
    case False
    from step_quiet [OF False] Cons.prems
    have "isEnabled (step a st)" "selfFailures (step a st) < 5" by simp_all
    from Cons.IH [OF this rest] step_quiet [OF False] False Cons.prems show ?thesis by simp
  next
    case True
    note r = step_raising [OF True]
    show ?thesis
    proof (cases "selfFailures st + 1 < 5")
      case True
      with r have "isEnabled (step a st)" "selfFailures (step a st) < 5" by simp_all
      from Cons.IH [OF this rest] r \<open>raisesIn a st\<close> True Cons.prems show ?thesis by simp
    next
      case False
      with r nn have d: "\<not> isEnabled (step a st)" by simp
      from run_disabled [OF d, of as] r nn False \<open>raisesIn a st\<close> Cons.prems d
      show ?thesis by simp
    qed
  qed
qed

lemma quiet_never_raises: "\<not> raisesInternally quietCollaborators e st"
  by (simp add: raisesInternally_def hasRaised_def handleBody_def andThen_def handleInfo_def
      handleCritical_def updateStatus_def handleStatusChange_def quietCollaborators_def
      attemptRecovery_def attemptRecoveryWithUI_def called_def Let_def)

lemma quiet_manager_returns: "\<not> managerRaises quietCollaborators e st"
  by (simp add: managerRaises_def hasRaised_def andThen_def handleInfo_def
      handleCritical_def quietCollaborators_def Let_def)

lemma quiet_keeps_enabled:
  "isEnabled st \<Longrightarrow> isEnabled (stateOf (handleHealthEvent quietCollaborators e st))"
proof -
  assume en: "isEnabled st"
  from quiet_never_raises [of e st] en obtain s where
    b: "handleBody quietCollaborators e st = Done s"
    by (cases "handleBody quietCollaborators e st")
       (simp_all add: raisesInternally_def hasRaised_def)
  with handleBody_keeps(1) [of quietCollaborators e st] en have "isEnabled s"
    by (simp add: stateOf_def)
  with b en show ?thesis by (simp add: handleHealthEvent_state)
qed

lemma handleInfo_other:
  "category event \<noteq> ''info'' \<Longrightarrow> handleInfo env event st = Done st"
  by (simp add: handleInfo_def)

lemma handleCritical_other:
  "category event \<noteq> ''critical'' \<Longrightarrow> handleCritical env event st = Done st"
  by (simp add: handleCritical_def)

lemma handleInfo_done:
  "category event = ''info'' \<Longrightarrow>
   ev_type event = ''recovery_success'' \<or> ev_type event = ''startup_check'' \<Longrightarrow>
   handleInfo env event st = Done st1 \<Longrightarrow>
     consecutiveFailures st1 = 0 \<and> status st1 = Healthy"
  by (auto simp: handleInfo_def called_def Let_def split: completion.splits)

lemma updateStatus_state:
  "consecutiveFailures (stateOf (updateStatus env event st)) = consecutiveFailures st
   \<and> status (stateOf (updateStatus env event st)) =
       (if category event = ''critical'' then Unhealthy
        else if category event = ''warning'' \<and> status st = Healthy then Degraded
        else status st)"
  by (simp add: updateStatus_def handleStatusChange_def stateOf_def called_def Let_def
      split: completion.splits)

lemma recordEvent_status:
  "status (recordEvent e st) = status st
   \<and> consecutiveFailures (recordEvent e st) = consecutiveFailures st"
  by (simp add: recordEvent_def Let_def)

lemma after_attempt:
  "status (stateOf (case a of Done st1 \<Rightarrow> Done st1 | Raised st1 x \<Rightarrow> handleSelfError x st1))
     = status (stateOf a)
   \<and> consecutiveFailures
        (stateOf (case a of Done st1 \<Rightarrow> Done st1 | Raised st1 x \<Rightarrow> handleSelfError x st1))
     = consecutiveFailures (stateOf a)"
  by (cases a) (simp_all add: handleSelfError_fields, simp_all add: stateOf_def)

lemma handled_when_manager_returns:
  assumes "isEnabled st" and "\<not> managerRaises env event st"
  shows "\<exists>st1 st2. handleInfo env event (recordEvent event st) = Done st1
           \<and> handleCritical env event st1 = Done st2
           \<and> status (stateOf (handleHealthEvent env event st))
               = status (stateOf (updateStatus env event st2))
           \<and> consecutiveFailures (stateOf (handleHealthEvent env event st))
               = consecutiveFailures (stateOf (updateStatus env event st2))"
proof -
  from assms(2) obtain st1 where i: "handleInfo env event (recordEvent event st) = Done st1"
    by (cases "handleInfo env event (recordEvent event st)")
       (simp_all add: managerRaises_def andThen_def hasRaised_def)
  with assms(2) obtain st2 where k: "handleCritical env event st1 = Done st2"
    by (cases "handleCritical env event st1")
       (simp_all add: managerRaises_def andThen_def hasRaised_def)
  from i k have b: "handleBody env event st = updateStatus env event st2"
    by (simp add: handleBody_def andThen_def)
  from assms(1) b after_attempt [of "updateStatus env event st2"]
  have "status (stateOf (handleHealthEvent env event st))
               = status (stateOf (updateStatus env event st2))
      \<and> consecutiveFailures (stateOf (handleHealthEvent env event st))
               = consecutiveFailures (stateOf (updateStatus env event st2))"
    by (simp add: handleHealthEvent_def)
  with i k show ?thesis by blast
qed

lemma handleCritical_count:
  "category event = ''critical'' \<Longrightarrow>
     consecutiveFailures (stateOf (handleCritical env event st)) = consecutiveFailures st + 1"
  by (auto simp: handleCritical_def attemptRecovery_def attemptRecoveryWithUI_def called_def
      stateOf_def Let_def split: completion.splits option.splits bool.splits)

lemma handleInfo_count:
  "category event = ''info'' \<Longrightarrow>
   ev_type event = ''recovery_success'' \<or> ev_type event = ''startup_check'' \<Longrightarrow>
     consecutiveFailures (stateOf (handleInfo env event st)) = 0"
  by (auto simp: handleInfo_def called_def stateOf_def Let_def split: completion.splits)

lemma andThen_updateStatus_count:
  "consecutiveFailures (stateOf (andThen a (updateStatus env event)))
     = consecutiveFailures (stateOf a)"
  by (cases a) (simp_all add: andThen_def updateStatus_state, simp_all add: stateOf_def)

lemma handled_count:
  assumes "isEnabled st"
  shows "consecutiveFailures (stateOf (handleHealthEvent env event st))
     = consecutiveFailures
         (stateOf (andThen (handleInfo env event (recordEvent event st))
                     (handleCritical env event)))"
  using assms after_attempt [of "handleBody env event st"]
  by (simp add: handleHealthEvent_def handleBody_def andThen_updateStatus_count)

text \<open>
  C3 (as amended). While the orchestrator is enabled: a critical event increments
  \<open>consecutiveFailures\<close> by one and, provided the calls into the recovery manager made
  for the event return (\<^verbatim>\<open>updateErrorCount\<close>, \<^verbatim>\<open>selectRecoveryStrategy\<close>,
  \<^verbatim>\<open>canRecover\<close>), sets the status to unhealthy; a warning event received while the
  status is healthy sets it to degraded; an info event of type \<^verbatim>\<open>recovery_success\<close>
  or \<^verbatim>\<open>startup_check\<close> (the spec's recovery-success and steady-state) resets
  \<open>consecutiveFailures\<close> to 0 and, provided \<^verbatim>\<open>updateErrorCount\<close> returns, sets the
  status to healthy. The state is the one the handler leaves, also when the notification
  of the renderer throws.
\<close>

theorem handleHealthEvent_transitions:
  assumes "isEnabled st"
  shows "(category event = ''critical'' \<longrightarrow>
            consecutiveFailures (stateOf (handleHealthEvent env event st))
              = consecutiveFailures st + 1
            \<and> (\<not> managerRaises env event st \<longrightarrow>
                 status (stateOf (handleHealthEvent env event st)) = Unhealthy))
       \<and> (category event = ''warning'' \<and> status st = Healthy \<longrightarrow>
            status (stateOf (handleHealthEvent env event st)) = Degraded)
       \<and> (category event = ''info''
            \<and> (ev_type event = ''recovery_success'' \<or> ev_type event = ''startup_check'') \<longrightarrow>
            consecutiveFailures (stateOf (handleHealthEvent env event st)) = 0
            \<and> (\<not> managerRaises env event st \<longrightarrow>
                 status (stateOf (handleHealthEvent env event st)) = Healthy))"
proof (intro conjI impI)
  assume c: "category event = ''critical''"
  then have "andThen (handleInfo env event (recordEvent event st)) (handleCritical env event)
      = handleCritical env event (recordEvent event st)"
    by (simp add: handleInfo_other andThen_def)
  with handled_count [OF assms, of env event] handleCritical_count [OF c, of env "recordEvent event st"]
  show "consecutiveFailures (stateOf (handleHealthEvent env event st))
          = consecutiveFailures st + 1"
    by (simp add: recordEvent_status)
next
  assume c: "category event = ''critical''" and m: "\<not> managerRaises env event st"
  with handled_when_manager_returns [OF assms, of env event] obtain st1 st2 where
    h: "status (stateOf (handleHealthEvent env event st))
               = status (stateOf (updateStatus env event st2))"
    by blast
  with c updateStatus_state [of env event st2]
  show "status (stateOf (handleHealthEvent env event st)) = Unhealthy"
    by simp
next
  assume w: "category event = ''warning'' \<and> status st = Healthy"
  then have "\<not> managerRaises env event st"
    by (simp add: managerRaises_def andThen_def hasRaised_def handleInfo_other
        handleCritical_other)
  with handled_when_manager_returns [OF assms, of env event] obtain st1 st2 where
    i: "handleInfo env event (recordEvent event st) = Done st1" and
    k: "handleCritical env event st1 = Done st2" and
    h: "status (stateOf (handleHealthEvent env event st))
               = status (stateOf (updateStatus env event st2))"
    by blast
  from w i k have "st2 = recordEvent event st"
    by (simp add: handleInfo_other handleCritical_other)
  with h w updateStatus_state [of env event st2]
  show "status (stateOf (handleHealthEvent env event st)) = Degraded"
    by (simp add: recordEvent_status)
next
  assume a: "category event = ''info''
            \<and> (ev_type event = ''recovery_success'' \<or> ev_type event = ''startup_check'')"
  then have i1: "category event = ''info''"
    and i2: "ev_type event = ''recovery_success'' \<or> ev_type event = ''startup_check''"
    by simp_all
  from i1 have "andThen (handleInfo env event (recordEvent event st)) (handleCritical env event)
      = handleInfo env event (recordEvent event st)"
    by (cases "handleInfo env event (recordEvent event st)")
       (simp_all add: andThen_def handleCritical_other)
  with handled_count [OF assms, of env event]
    handleInfo_count [OF i1 i2, of env "recordEvent event st"]
  show "consecutiveFailures (stateOf (handleHealthEvent env event st)) = 0"
    by simp
next
  assume a: "category event = ''info''
            \<and> (ev_type event = ''recovery_success'' \<or> ev_type event = ''startup_check'')"
    and m: "\<not> managerRaises env event st"
  with handled_when_manager_returns [OF assms, of env event] obtain st1 st2 where
    i: "handleInfo env event (recordEvent event st) = Done st1" and
    k: "handleCritical env event st1 = Done st2" and
    h: "status (stateOf (handleHealthEvent env event st))
               = status (stateOf (updateStatus env event st2))"
    by blast
  from a have i1: "category event = ''info''"
    and i2: "ev_type event = ''recovery_success'' \<or> ev_type event = ''startup_check''"
    by simp_all
  from a k have "st2 = st1" by (simp add: handleCritical_other)
  with handleInfo_done [OF i1 i2 i] have "status st2 = Healthy" by simp
  with h a updateStatus_state [of env event st2]
  show "status (stateOf (handleHealthEvent env event st)) = Healthy"
    by simp
qed

theorem handleHealthEvent_transitions_witness:
  "isEnabled runningState
   \<and> category criticalEvent = ''critical''
   \<and> \<not> managerRaises quietCollaborators criticalEvent runningState
   \<and> consecutiveFailures (stateOf (handleHealthEvent quietCollaborators criticalEvent runningState))
       = consecutiveFailures runningState + 1
   \<and> status (stateOf (handleHealthEvent quietCollaborators criticalEvent runningState)) = Unhealthy
   \<and> category warningEvent = ''warning'' \<and> status runningState = Healthy
   \<and> status (stateOf (handleHealthEvent quietCollaborators warningEvent runningState)) = Degraded
   \<and> category recoveryEvent = ''info'' \<and> ev_type recoveryEvent = ''recovery_success''
   \<and> isEnabled (stateOf (handleHealthEvent quietCollaborators criticalEvent runningState))
   \<and> \<not> managerRaises quietCollaborators recoveryEvent
         (stateOf (handleHealthEvent quietCollaborators criticalEvent runningState))
   \<and> consecutiveFailures (stateOf (handleHealthEvent quietCollaborators recoveryEvent
         (stateOf (handleHealthEvent quietCollaborators criticalEvent runningState)))) = 0
   \<and> status (stateOf (handleHealthEvent quietCollaborators recoveryEvent
         (stateOf (handleHealthEvent quietCollaborators criticalEvent runningState)))) = Healthy"
proof -
  note quiet = quiet_manager_returns
  have en: "isEnabled runningState" and h: "status runningState = Healthy"
    by (simp_all add: runningState_def initialState_def)
  have c: "category criticalEvent = ''critical''" by (simp add: criticalEvent_def)
  have w: "category warningEvent = ''warning''" by (simp add: warningEvent_def)
  have i: "category recoveryEvent = ''info''" and ty: "ev_type recoveryEvent = ''recovery_success''"
    by (simp_all add: recoveryEvent_def)
  have en2: "isEnabled (stateOf (handleHealthEvent quietCollaborators criticalEvent runningState))"
    using en by (rule quiet_keeps_enabled)
  have a: "consecutiveFailures
       (stateOf (handleHealthEvent quietCollaborators criticalEvent runningState))
       = consecutiveFailures runningState + 1
     \<and> status (stateOf (handleHealthEvent quietCollaborators criticalEvent runningState))
       = Unhealthy"
    using handleHealthEvent_transitions [OF en, of criticalEvent quietCollaborators] c quiet
    by simp
  have b: "status (stateOf (handleHealthEvent quietCollaborators warningEvent runningState))
       = Degraded"
    using handleHealthEvent_transitions [OF en, of warningEvent quietCollaborators] w h
    by simp
  have d: "consecutiveFailures (stateOf (handleHealthEvent quietCollaborators recoveryEvent
         (stateOf (handleHealthEvent quietCollaborators criticalEvent runningState)))) = 0
     \<and> status (stateOf (handleHealthEvent quietCollaborators recoveryEvent
         (stateOf (handleHealthEvent quietCollaborators criticalEvent runningState)))) = Healthy"
    using handleHealthEvent_transitions [OF en2, of recoveryEvent quietCollaborators] i ty quiet
    by simp
  from a b d en h c w i ty en2 quiet show ?thesis by simp
qed

text \<open>
  C3 as stated fails: the orchestrator is enabled and handles a critical event, the
  recovery manager's \<^verbatim>\<open>updateErrorCount\<close> throws an Error, and the status stays
  healthy with \<open>consecutiveFailures\<close> at 1.
\<close>

theorem critical_event_aborted_counterexample:
  "isEnabled runningState \<and> category criticalEvent = ''critical''
   \<and> consecutiveFailures (stateOf (handleHealthEvent failingCollaborators criticalEvent runningState))
       = 1
   \<and> status (stateOf (handleHealthEvent failingCollaborators criticalEvent runningState)) = Healthy
   \<and> status (stateOf (handleHealthEvent failingCollaborators criticalEvent runningState))
       \<noteq> Unhealthy"
  by (simp add: runningState_def initialState_def criticalEvent_def failingCollaborators_def
      quietCollaborators_def handleHealthEvent_def handleBody_def andThen_def handleInfo_def
      handleCritical_def recordEvent_def called_def handleSelfError_def readMessage_def
      MAX_SELF_FAILURES_def stateOf_def Let_def)

text \<open>
  With thrown values other than \<^verbatim>\<open>null\<close> and \<^verbatim>\<open>undefined\<close> the self-protection
  works as intended: counting from a fresh orchestrator, the fifth exception disables it
  and stops the polling, for good, and \<open>isEnabled\<close> changes once.
\<close>

lemma self_protection_for_errors:
  assumes "isEnabled st0" and "selfFailures st0 = 0" and "nullishExceptions as st0 = 0"
  shows "(5 \<le> internalExceptions as st0 \<longrightarrow>
            \<not> isEnabled (run as st0) \<and> \<not> isPollingActive (run as st0))
     \<and> (\<not> isEnabled (run as st0) \<longleftrightarrow> internalExceptions as st0 = 5)
     \<and> (\<not> isEnabled (run as st0) \<longrightarrow>
           (\<forall>bs. \<not> isEnabled (run bs (run as st0)) \<and> \<not> isPollingActive (run bs (run as st0)))
           \<and> (\<forall>env event. handleHealthEvent env event (run as st0) = Done (run as st0)))
     \<and> disablings as st0 \<le> 1
     \<and> (5 \<le> internalExceptions as st0 \<longrightarrow> disablings as st0 = 1)"
proof -
  from assms have lt: "selfFailures st0 < 5" by simp
  note e = run_enabled [OF assms(1) lt assms(3)]
  have after: "\<not> isEnabled (run bs (run as st0)) \<and> \<not> isPollingActive (run bs (run as st0))"
    if d: "\<not> isEnabled (run as st0)" for bs
    using run_disabled [OF d, of bs] e d by (simp add: isPollingActive_def)
  have ignore: "handleHealthEvent env event (run as st0) = Done (run as st0)"
    if d: "\<not> isEnabled (run as st0)" for env event
    using d by (simp add: handleHealthEvent_def)
  from e assms(2) have iff: "\<not> isEnabled (run as st0) \<longleftrightarrow> internalExceptions as st0 = 5"
    by auto
  from e assms(2) have five: "5 \<le> internalExceptions as st0 \<longrightarrow>
      \<not> isEnabled (run as st0) \<and> \<not> isPollingActive (run as st0)"
    by (auto simp: isPollingActive_def)
  from e have once: "disablings as st0 \<le> 1" by simp
  from e assms(2) have one: "5 \<le> internalExceptions as st0 \<longrightarrow> disablings as st0 = 1"
    by auto
  from five iff after ignore once one show ?thesis by blast
qed












lemma erase_of_update: "eraseEvents (st\<lparr>recentEvents := evs\<rparr>) = eraseEvents st"
  by (simp add: eraseEvents_def)

















section \<open>Properties of the immediate check\<close>

lemma removeDead_count:
  "snd (removeDead ty pids es (reg, n)) = n + length (filter (isDeadEntry pids) es)"
  by (induction es arbitrary: reg n) simp_all

lemma removeDead_registry:
  "fst (removeDead ty pids es (reg, n)) =
     reg\<lparr>processes :=
       filter (\<lambda>e. \<not> (entry_type e = ty
                     \<and> entry_id e \<in> entry_id ` set (filter (isDeadEntry pids) es)))
         (processes reg)\<rparr>"
proof (induction es arbitrary: reg n)
  case Nil
  then show ?case by simp
next
  case (Cons a es)
  show ?case
  proof (cases "isDeadEntry pids a")
    case True
    have "filter (\<lambda>e. \<not> (entry_type e = ty
                     \<and> entry_id e \<in> entry_id ` set (filter (isDeadEntry pids) es)))
            (filter (\<lambda>e. \<not> (entry_id e = entry_id a \<and> entry_type e = ty)) (processes reg))
          = filter (\<lambda>e. \<not> (entry_type e = ty
                     \<and> entry_id e \<in> entry_id ` set (filter (isDeadEntry pids) (a # es))))
            (processes reg)"
      using True by (auto intro: filter_cong)
    with True Cons.IH show ?thesis by (simp add: unregisterProcess_def)
  next
    case False
    with Cons.IH show ?thesis by simp
  qed
qed

lemma checkService_cases:
  "checkService info probe f g = (st, is) \<Longrightarrow>
     (is = [] \<longleftrightarrow> serviceFine info probe)
     \<and> (info \<noteq> None \<and> \<not> svc_responsive st \<longrightarrow> is \<noteq> [])
     \<and> length is \<le> 1"
  by (auto simp: checkService_def serviceFine_def split: option.splits outcome.splits if_splits)

lemma reconcile_removed:
  "fst (snd (reconcile cs ts reg)) =
     length (filter (isDeadEntry cs) (filter (\<lambda>p. entry_type p = V2Session) (getCurrentProcesses reg)))
     + length (filter (isDeadEntry ts) (filter (\<lambda>p. entry_type p = Tunnel) (getCurrentProcesses reg)))"
proof -
  have "snd (removeDead ty pids es p) = snd p + length (filter (isDeadEntry pids) es)"
    for ty pids es p
    using removeDead_count [of ty pids es "fst p" "snd p"] by simp
  then show ?thesis by (simp add: reconcile_def Let_def)
qed

lemma reconcile_registry:
  "fst (reconcile cs ts reg) =
     reg\<lparr>processes :=
       filter (\<lambda>e. \<not> (entry_type e = Tunnel
                 \<and> entry_id e \<in> entry_id ` set (filter (isDeadEntry ts)
                      (filter (\<lambda>p. entry_type p = Tunnel) (getCurrentProcesses reg)))))
         (filter (\<lambda>e. \<not> (entry_type e = V2Session
                 \<and> entry_id e \<in> entry_id ` set (filter (isDeadEntry cs)
                      (filter (\<lambda>p. entry_type p = V2Session) (getCurrentProcesses reg)))))
           (processes reg))\<rparr>"
proof -
  have "fst (removeDead ty pids es p) =
     (fst p)\<lparr>processes :=
       filter (\<lambda>e. \<not> (entry_type e = ty
                     \<and> entry_id e \<in> entry_id ` set (filter (isDeadEntry pids) es)))
         (processes (fst p))\<rparr>"
    for ty pids es p
    using removeDead_registry [of ty pids es "fst p" "snd p"] by simp
  then show ?thesis by (simp add: reconcile_def Let_def)
qed

lemma reconcile_orphans:
  "snd (snd (reconcile [] [] reg)) = 0"
  by (simp add: reconcile_def Let_def countOrphans_def)

lemma doImmediateCheck_removed:
  "res_removed (fst (doImmediateCheck env reg)) =
     length (filter (isDeadEntry (scannedPids env V2Session))
               (filter (\<lambda>p. entry_type p = V2Session) (getCurrentProcesses reg)))
     + length (filter (isDeadEntry (scannedPids env Tunnel))
               (filter (\<lambda>p. entry_type p = Tunnel) (getCurrentProcesses reg)))"
  by (simp add: doImmediateCheck_def Let_def case_prod_beta reconcile_removed scannedPids_def)

lemma doImmediateCheck_registry:
  "snd (doImmediateCheck env reg) =
     reg\<lparr>processes :=
       filter (\<lambda>e. \<not> (entry_type e = Tunnel
                 \<and> entry_id e \<in> entry_id ` set (filter (isDeadEntry (scannedPids env Tunnel))
                      (filter (\<lambda>p. entry_type p = Tunnel) (getCurrentProcesses reg)))))
         (filter (\<lambda>e. \<not> (entry_type e = V2Session
                 \<and> entry_id e \<in> entry_id ` set (filter (isDeadEntry (scannedPids env V2Session))
                      (filter (\<lambda>p. entry_type p = V2Session) (getCurrentProcesses reg)))))
           (processes reg))\<rparr>"
  by (simp add: doImmediateCheck_def Let_def case_prod_beta reconcile_registry scannedPids_def)

lemma doImmediateCheck_issues:
  "res_issues (fst (doImmediateCheck env reg)) =
     snd (scanChildren env)
     @ (if res_removed (fst (doImmediateCheck env reg)) > 0
        then [CleanedDeadEntries (res_removed (fst (doImmediateCheck env reg)))] else [])
     @ (if res_orphans (fst (doImmediateCheck env reg)) > 0
        then [OrphansDetected (res_orphans (fst (doImmediateCheck env reg)))] else [])
     @ snd (checkService (env_routerInfo env) (env_checkOpenAIRouter env)
              RouterNotResponding RouterCheckFailed)
     @ snd (checkService (if env_serverRunning env then Some (env_serverPort env) else None)
              (env_checkHttpServer env) HttpServerNotResponding HttpServerCheckFailed)
     @ memoryIssues env"
  by (simp add: doImmediateCheck_def Let_def case_prod_beta)

lemma doImmediateCheck_services:
  "res_openaiRouter (fst (doImmediateCheck env reg)) =
     fst (checkService (env_routerInfo env) (env_checkOpenAIRouter env)
            RouterNotResponding RouterCheckFailed)"
  "res_httpServer (fst (doImmediateCheck env reg)) =
     fst (checkService (if env_serverRunning env then Some (env_serverPort env) else None)
            (env_checkHttpServer env) HttpServerNotResponding HttpServerCheckFailed)"
  by (simp_all add: doImmediateCheck_def Let_def case_prod_beta)

lemma doImmediateCheck_healthy:
  "res_healthy (fst (doImmediateCheck env reg)) =
     (res_issues (fst (doImmediateCheck env reg)) = []
      \<or> (res_removed (fst (doImmediateCheck env reg)) > 0
          \<and> length (res_issues (fst (doImmediateCheck env reg))) = 1
          \<and> \<not> hasServiceIssues env (res_openaiRouter (fst (doImmediateCheck env reg)))
                (res_httpServer (fst (doImmediateCheck env reg)))))"
  by (simp add: doImmediateCheck_def Let_def case_prod_beta)

lemma doImmediateCheck_orphans:
  "scannedPids env V2Session = [] \<Longrightarrow> scannedPids env Tunnel = [] \<Longrightarrow>
     res_orphans (fst (doImmediateCheck env reg)) = 0"
  by (simp add: doImmediateCheck_def Let_def case_prod_beta scannedPids_def reconcile_orphans)

lemma scan_issues_cases: "snd (scanChildren env) = [] \<or> snd (scanChildren env) = [PpidScanFailed]"
  by (simp add: scanChildren_def split: outcome.splits)

lemma checkService_issue_shape:
  "snd (checkService info probe RouterNotResponding RouterCheckFailed) \<noteq> [CleanedDeadEntries n]"
  "snd (checkService info probe HttpServerNotResponding HttpServerCheckFailed) \<noteq> [CleanedDeadEntries n]"
  by (auto simp: checkService_def split: option.splits outcome.splits)

lemma checkService_responsive:
  "snd (checkService info probe f g) = [] \<Longrightarrow> info \<noteq> None \<Longrightarrow>
     svc_responsive (fst (checkService info probe f g))"
  by (auto simp: checkService_def split: option.splits outcome.splits if_splits)

lemma single_issue_is_cleanup:
  assumes "res_removed (fst (doImmediateCheck env reg)) > 0"
    and "length (res_issues (fst (doImmediateCheck env reg))) = 1"
  shows "res_issues (fst (doImmediateCheck env reg))
           = [CleanedDeadEntries (res_removed (fst (doImmediateCheck env reg)))]
     \<and> snd (checkService (env_routerInfo env) (env_checkOpenAIRouter env)
              RouterNotResponding RouterCheckFailed) = []
     \<and> snd (checkService (if env_serverRunning env then Some (env_serverPort env) else None)
              (env_checkHttpServer env) HttpServerNotResponding HttpServerCheckFailed) = []"
  using assms unfolding doImmediateCheck_issues [of env reg]
  by (cases "snd (scanChildren env)") (auto simp: memoryIssues_def split: if_splits)

lemma cleanup_issue_only:
  assumes "res_issues (fst (doImmediateCheck env reg))
             = [CleanedDeadEntries (res_removed (fst (doImmediateCheck env reg)))]"
  shows "res_removed (fst (doImmediateCheck env reg)) > 0
     \<and> snd (checkService (env_routerInfo env) (env_checkOpenAIRouter env)
              RouterNotResponding RouterCheckFailed) = []
     \<and> snd (checkService (if env_serverRunning env then Some (env_serverPort env) else None)
              (env_checkHttpServer env) HttpServerNotResponding HttpServerCheckFailed) = []"
proof -
  let ?n = "res_removed (fst (doImmediateCheck env reg))"
  let ?r = "snd (checkService (env_routerInfo env) (env_checkOpenAIRouter env)
              RouterNotResponding RouterCheckFailed)"
  let ?h = "snd (checkService (if env_serverRunning env then Some (env_serverPort env) else None)
              (env_checkHttpServer env) HttpServerNotResponding HttpServerCheckFailed)"
  from assms have len: "length (res_issues (fst (doImmediateCheck env reg))) = 1" by simp
  have pos: "?n > 0"
  proof (rule ccontr)
    assume "\<not> ?n > 0"
    then have z: "?n = 0" by simp
    from assms scan_issues_cases [of env]
      checkService_issue_shape(1) [of "env_routerInfo env" "env_checkOpenAIRouter env" 0]
      checkService_issue_shape(2)
        [of "if env_serverRunning env then Some (env_serverPort env) else None"
            "env_checkHttpServer env" 0]
    show False
      unfolding doImmediateCheck_issues [of env reg] z
      by (auto simp: memoryIssues_def append_eq_Cons_conv Cons_eq_append_conv split: if_splits)
  qed
  from single_issue_is_cleanup [OF pos len] pos show ?thesis by simp
qed

lemma dead_entry_removed:
  assumes "entry \<in> set (getCurrentProcesses reg)"
    and "isDeadEntry (scannedPids env (entry_type entry)) entry"
  shows "\<not> (\<exists>e \<in> set (processes (registryAfterCheck env reg)).
            entry_id e = entry_id entry \<and> entry_type e = entry_type entry)"
proof (cases "entry_type entry")
  case V2Session
  with assms have "entry_id entry \<in> entry_id ` set (filter (isDeadEntry (scannedPids env V2Session))
      (filter (\<lambda>p. entry_type p = V2Session) (getCurrentProcesses reg)))"
    by auto
  with V2Session show ?thesis
    unfolding registryAfterCheck_def doImmediateCheck_registry by auto
next
  case Tunnel
  with assms have "entry_id entry \<in> entry_id ` set (filter (isDeadEntry (scannedPids env Tunnel))
      (filter (\<lambda>p. entry_type p = Tunnel) (getCurrentProcesses reg)))"
    by auto
  with Tunnel show ?thesis
    unfolding registryAfterCheck_def doImmediateCheck_registry by auto
qed

lemma healthy_iff_formula:
  "res_healthy (checkResult env reg) \<longleftrightarrow>
     (res_issues (checkResult env reg) = []
      \<or> (res_removed (checkResult env reg) > 0
          \<and> length (res_issues (checkResult env reg)) = 1
          \<and> \<not> hasServiceIssues env (res_openaiRouter (checkResult env reg))
                (res_httpServer (checkResult env reg))))"
  unfolding checkResult_def by (rule doImmediateCheck_healthy)

lemma healthy_iff_only_cleanup:
  "res_healthy (checkResult env reg) \<longleftrightarrow>
     (res_issues (checkResult env reg) = []
      \<or> res_issues (checkResult env reg) = [CleanedDeadEntries (res_removed (checkResult env reg))])"
proof -
  let ?r = "fst (doImmediateCheck env reg)"
  have fine: "\<not> hasServiceIssues env (res_openaiRouter ?r) (res_httpServer ?r)"
    if r: "snd (checkService (env_routerInfo env) (env_checkOpenAIRouter env)
              RouterNotResponding RouterCheckFailed) = []"
      and h: "snd (checkService (if env_serverRunning env then Some (env_serverPort env) else None)
              (env_checkHttpServer env) HttpServerNotResponding HttpServerCheckFailed) = []"
  proof -
    have a: "svc_responsive (res_openaiRouter ?r)" if "env_routerInfo env \<noteq> None"
      unfolding doImmediateCheck_services using r that by (rule checkService_responsive)
    have b: "svc_responsive (res_httpServer ?r)" if "env_serverRunning env"
      unfolding doImmediateCheck_services
      using h that by (intro checkService_responsive) simp_all
    from a b show ?thesis unfolding hasServiceIssues_def by blast
  qed
  show ?thesis
    unfolding checkResult_def doImmediateCheck_healthy [of env reg]
    using single_issue_is_cleanup [of env reg] cleanup_issue_only [of env reg] fine
    by auto
qed

lemma single_dead_entry:
  assumes cur: "getCurrentProcesses reg = [entry]"
    and dead: "isDeadEntry (scannedPids env (entry_type entry)) entry"
    and quiet: "nothingElseWrong env"
  shows "res_removed (checkResult env reg) = 1
     \<and> res_issues (checkResult env reg) = [CleanedDeadEntries 1]
     \<and> res_healthy (checkResult env reg)
     \<and> getCurrentProcesses (registryAfterCheck env reg) = []"
proof -
  have rem: "res_removed (checkResult env reg) = 1"
    using cur dead unfolding checkResult_def doImmediateCheck_removed
    by (cases "entry_type entry") simp_all
  from quiet have orph: "res_orphans (checkResult env reg) = 0"
    unfolding checkResult_def nothingElseWrong_def
    by (intro doImmediateCheck_orphans) simp_all
  from quiet have
    r: "snd (checkService (env_routerInfo env) (env_checkOpenAIRouter env)
              RouterNotResponding RouterCheckFailed) = []" and
    h: "snd (checkService (if env_serverRunning env then Some (env_serverPort env) else None)
              (env_checkHttpServer env) HttpServerNotResponding HttpServerCheckFailed) = []"
    unfolding nothingElseWrong_def
    using checkService_cases [OF surjective_pairing] by blast+
  have iss: "res_issues (checkResult env reg) = [CleanedDeadEntries 1]"
    using quiet rem orph r h
    unfolding checkResult_def doImmediateCheck_issues [of env reg] nothingElseWrong_def
    by simp
  with rem have hl: "res_healthy (checkResult env reg)"
    by (simp add: healthy_iff_only_cleanup)
  from cur have "entry \<in> set (getCurrentProcesses reg)" by simp
  from dead_entry_removed [OF this dead]
  have gone: "\<forall>e \<in> set (processes (registryAfterCheck env reg)).
      \<not> (entry_id e = entry_id entry \<and> entry_type e = entry_type entry)"
    by blast
  have sub: "set (getCurrentProcesses (registryAfterCheck env reg)) \<subseteq> set (getCurrentProcesses reg)"
    unfolding registryAfterCheck_def doImmediateCheck_registry getCurrentProcesses_def
    by auto
  have "getCurrentProcesses (registryAfterCheck env reg) = []"
  proof (rule ccontr)
    assume "getCurrentProcesses (registryAfterCheck env reg) \<noteq> []"
    then obtain e where e: "e \<in> set (getCurrentProcesses (registryAfterCheck env reg))"
      by (cases "getCurrentProcesses (registryAfterCheck env reg)") auto
    with sub cur have "e = entry" by auto
    moreover from e have "e \<in> set (processes (registryAfterCheck env reg))"
      by (simp add: getCurrentProcesses_def)
    ultimately show False using gone by blast
  qed
  with rem iss hl show ?thesis by simp
qed

text \<open>
  C1. The snapshot of the immediate check is healthy exactly when the issue list is
  empty, or the registry cleanup removed something, there is exactly one issue and no
  service that is there is unresponsive; that one issue is then the cleanup itself. An
  entry of the current instance whose PID is not among the scanned children of its kind
  is removed from the registry; and when such an entry is the only registered one and
  nothing else is out of order, the check reports one removal and is healthy.
\<close>

theorem immediate_check_health:
  "(res_healthy (checkResult env reg) \<longleftrightarrow>
      (res_issues (checkResult env reg) = []
       \<or> (res_removed (checkResult env reg) > 0
           \<and> length (res_issues (checkResult env reg)) = 1
           \<and> \<not> hasServiceIssues env (res_openaiRouter (checkResult env reg))
                 (res_httpServer (checkResult env reg)))))
   \<and> (res_healthy (checkResult env reg) \<longleftrightarrow>
      (res_issues (checkResult env reg) = []
       \<or> res_issues (checkResult env reg)
            = [CleanedDeadEntries (res_removed (checkResult env reg))]))
   \<and> (\<forall>entry. entry \<in> set (getCurrentProcesses reg)
          \<and> isDeadEntry (scannedPids env (entry_type entry)) entry \<longrightarrow>
        \<not> (\<exists>e \<in> set (processes (registryAfterCheck env reg)).
             entry_id e = entry_id entry \<and> entry_type e = entry_type entry))
   \<and> (\<forall>entry. getCurrentProcesses reg = [entry]
          \<and> isDeadEntry (scannedPids env (entry_type entry)) entry
          \<and> nothingElseWrong env \<longrightarrow>
        res_removed (checkResult env reg) = 1
        \<and> res_healthy (checkResult env reg)
        \<and> getCurrentProcesses (registryAfterCheck env reg) = [])"
  using healthy_iff_formula [of env reg] healthy_iff_only_cleanup [of env reg]
    dead_entry_removed [of _ reg env] single_dead_entry [of reg _ env]
  by blast

theorem immediate_check_health_witness:
  "getCurrentProcesses sampleRegistry = [sampleEntry]
   \<and> isDeadEntry (scannedPids sampleCheckEnv (entry_type sampleEntry)) sampleEntry
   \<and> nothingElseWrong sampleCheckEnv
   \<and> res_removed (checkResult sampleCheckEnv sampleRegistry) = 1
   \<and> res_healthy (checkResult sampleCheckEnv sampleRegistry)
   \<and> getCurrentProcesses (registryAfterCheck sampleCheckEnv sampleRegistry) = []
   \<and> \<not> (\<exists>e \<in> set (processes (registryAfterCheck sampleCheckEnv sampleRegistry)).
           entry_id e = entry_id sampleEntry \<and> entry_type e = entry_type sampleEntry)"
proof -
  have cur: "getCurrentProcesses sampleRegistry = [sampleEntry]"
    by (simp add: getCurrentProcesses_def sampleRegistry_def sampleEntry_def)
  have dead: "isDeadEntry (scannedPids sampleCheckEnv (entry_type sampleEntry)) sampleEntry"
    by (simp add: isDeadEntry_def scannedPids_def scanChildren_def pidsNamed_def
        sampleCheckEnv_def sampleEntry_def)
  have quiet: "nothingElseWrong sampleCheckEnv"
    by (simp add: nothingElseWrong_def scannedPids_def scanChildren_def pidsNamed_def
        serviceFine_def memoryIssues_def MEMORY_WARNING_THRESHOLD_MB_def sampleCheckEnv_def)
  from cur have mem: "sampleEntry \<in> set (getCurrentProcesses sampleRegistry)" by simp
  from immediate_check_health [of sampleCheckEnv sampleRegistry] cur dead quiet mem
  show ?thesis by blast
qed

section \<open>Properties of the single-flight guard\<close>

lemma runImmediateCheck_stores:
  "lastCheckPromise (snd (runImmediateCheck now ts st)) = Some (fst (runImmediateCheck now ts st))"
  by (simp add: runImmediateCheck_def startImmediateCheck_def Let_def split: option.splits)

lemma runImmediateCheck_served:
  assumes "lastCheckPromise st = Some p" and "debounced now st \<or> locked st"
  shows "runImmediateCheck now ts st = (p, st)"
  using assms by (auto simp: runImmediateCheck_def)

lemma runImmediateCheck_started:
  assumes "scansStarted (snd (runImmediateCheck now ts st)) \<noteq> scansStarted st"
  shows "lastCheckTime (snd (runImmediateCheck now ts st)) = Some ts
     \<and> isCheckRunning (snd (runImmediateCheck now ts st))
     \<and> scansStarted (snd (runImmediateCheck now ts st)) = scansStarted st + 1"
  using assms
  by (auto simp: runImmediateCheck_def startImmediateCheck_def Let_def
      split: option.splits if_splits)

text \<open>
  C2 (as amended). The cool-down window is counted from the start of the latest scan. A
  call returns the promise the module holds. A second call made inside that window, or
  while the scan is in flight, returns the same promise as the first and leaves the state
  as it is, so it starts no scan; in particular when the first call started the scan and
  the second comes less than 2000 ms after that start, one execution of
  \<^verbatim>\<open>doImmediateCheck\<close> serves both.
\<close>

theorem single_flight_window:
  assumes first: "runImmediateCheck now1 ts1 st = (p1, st1)"
    and between: "st2 = st1 \<or> st2 = finishImmediateCheck st1"
  shows "lastCheckPromise st1 = Some p1
     \<and> (debounced now2 st2 \<or> isCheckRunning st2 \<longrightarrow>
          runImmediateCheck now2 ts2 st2 = (p1, st2))
     \<and> (scansStarted st1 = scansStarted st + 1 \<and> ts1 \<noteq> 0
          \<and> now2 - ts1 < MIN_CHECK_INTERVAL_MS \<longrightarrow>
          runImmediateCheck now2 ts2 st2 = (p1, st2)
          \<and> scansStarted (snd (runImmediateCheck now2 ts2 st2)) = scansStarted st + 1)"
proof -
  from first runImmediateCheck_stores [of now1 ts1 st]
  have stored: "lastCheckPromise st1 = Some p1" by simp
  with between have stored2: "lastCheckPromise st2 = Some p1"
    by (auto simp: finishImmediateCheck_def)
  have served: "runImmediateCheck now2 ts2 st2 = (p1, st2)"
    if "debounced now2 st2 \<or> isCheckRunning st2"
    using that stored2 by (intro runImmediateCheck_served) (auto simp: locked_def)
  have fresh: "runImmediateCheck now2 ts2 st2 = (p1, st2)
      \<and> scansStarted (snd (runImmediateCheck now2 ts2 st2)) = scansStarted st + 1"
    if a: "scansStarted st1 = scansStarted st + 1 \<and> ts1 \<noteq> 0
          \<and> now2 - ts1 < MIN_CHECK_INTERVAL_MS"
  proof -
    from a first runImmediateCheck_started [of now1 ts1 st]
    have "lastCheckTime st1 = Some ts1" by simp
    with between have "lastCheckTime st2 = Some ts1"
      by (auto simp: finishImmediateCheck_def)
    with a stored2 have "debounced now2 st2" by (simp add: debounced_def)
    with served have r: "runImmediateCheck now2 ts2 st2 = (p1, st2)" by simp
    from between a have "scansStarted st2 = scansStarted st + 1"
      by (auto simp: finishImmediateCheck_def)
    with r show ?thesis by simp
  qed
  from stored served fresh show ?thesis by blast
qed

theorem single_flight_window_witness:
  "runImmediateCheck 1000 1000 initialChecker
     = (1, snd (runImmediateCheck 1000 1000 initialChecker))
   \<and> scansStarted (snd (runImmediateCheck 1000 1000 initialChecker))
       = scansStarted initialChecker + 1
   \<and> (1000::int) \<noteq> 0 \<and> (1500::int) - 1000 < MIN_CHECK_INTERVAL_MS
   \<and> debounced 1500 cooledDown
   \<and> runImmediateCheck 1500 1500 cooledDown = (1, cooledDown)
   \<and> scansStarted (snd (runImmediateCheck 1500 1500 cooledDown))
       = scansStarted initialChecker + 1"
proof -
  have first: "runImmediateCheck 1000 1000 initialChecker
      = (1, snd (runImmediateCheck 1000 1000 initialChecker))"
    by (simp add: runImmediateCheck_def startImmediateCheck_def initialChecker_def)
  have fin: "cooledDown = snd (runImmediateCheck 1000 1000 initialChecker)
      \<or> cooledDown = finishImmediateCheck (snd (runImmediateCheck 1000 1000 initialChecker))"
    by (simp add: cooledDown_def)
  have one: "scansStarted (snd (runImmediateCheck 1000 1000 initialChecker))
       = scansStarted initialChecker + 1"
    by (simp add: runImmediateCheck_def startImmediateCheck_def initialChecker_def)
  have t: "(1000::int) \<noteq> 0 \<and> (1500::int) - 1000 < MIN_CHECK_INTERVAL_MS"
    by (simp add: MIN_CHECK_INTERVAL_MS_def)
  have d: "debounced 1500 cooledDown"
    by (simp add: debounced_def cooledDown_def finishImmediateCheck_def runImmediateCheck_def
        startImmediateCheck_def initialChecker_def MIN_CHECK_INTERVAL_MS_def)
  from single_flight_window [OF first fin, of 1500 1500] one t d first
  show ?thesis by blast
qed

text \<open>
  C2 as stated fails: two calls 200 ms apart get different promises when the first was
  itself served from the cool-down window of an earlier scan and that window ends
  between them.
\<close>

theorem two_calls_within_500ms_counterexample:
  "\<bar>(3100::int) - 2900\<bar> < 500
   \<and> fst (runImmediateCheck 2900 2900 cooledDown) = 1
   \<and> fst (runImmediateCheck 3100 3100 (snd (runImmediateCheck 2900 2900 cooledDown))) = 2
   \<and> fst (runImmediateCheck 3100 3100 (snd (runImmediateCheck 2900 2900 cooledDown)))
       \<noteq> fst (runImmediateCheck 2900 2900 cooledDown)"
  by (simp add: cooledDown_def finishImmediateCheck_def runImmediateCheck_def
      startImmediateCheck_def initialChecker_def debounced_def locked_def
      MIN_CHECK_INTERVAL_MS_def)

section \<open>Properties of killProcess\<close>

text \<open>
  C6 (as amended). \<^verbatim>\<open>killProcess\<close> fails exactly when the kill command reported an
  error and the process is still alive after it; the text of the error plays no role;
  when the command errors and the process is gone, and whenever the command reports
  success (no verification is made then), it succeeds.
\<close>

theorem killProcess_fails_iff:
  "(fst (win32_killProcess sys w pid signal) = Inl (FailedToTerminate pid) \<longleftrightarrow>
      (\<exists>m. fst (taskkill sys w pid (signal = ''SIGKILL'')) = Throws m)
      \<and> win32_isProcessAlive sys (snd (win32_killProcess sys w pid signal)) pid)
   \<and> (fst (win32_killProcess sys w pid signal) = Inr () \<longleftrightarrow>
      fst (win32_killProcess sys w pid signal) \<noteq> Inl (FailedToTerminate pid))
   \<and> snd (win32_killProcess sys w pid signal) = snd (taskkill sys w pid (signal = ''SIGKILL''))
   \<and> (\<forall>m. fst (taskkill sys w pid (signal = ''SIGKILL'')) = Throws m
          \<and> \<not> win32_isProcessAlive sys (snd (taskkill sys w pid (signal = ''SIGKILL''))) pid \<longrightarrow>
        fst (win32_killProcess sys w pid signal) = Inr ())
   \<and> (\<forall>u. fst (taskkill sys w pid (signal = ''SIGKILL'')) = Returns u \<longrightarrow>
        fst (win32_killProcess sys w pid signal) = Inr ())"
  by (cases "taskkill sys w pid (signal = ''SIGKILL'')";
      cases "fst (taskkill sys w pid (signal = ''SIGKILL''))")
     (auto simp: win32_killProcess_def Let_def)

theorem killProcess_fails_iff_witness:
  "fst (taskkill (failingSystem ''Zugriff verweigert'' True) [4242] 4242 (''SIGTERM'' = ''SIGKILL''))
     = Throws ''Zugriff verweigert''
   \<and> \<not> win32_isProcessAlive (failingSystem ''Zugriff verweigert'' True)
         (snd (taskkill (failingSystem ''Zugriff verweigert'' True) [4242] 4242
                (''SIGTERM'' = ''SIGKILL''))) 4242
   \<and> fst (win32_killProcess (failingSystem ''Zugriff verweigert'' True) [4242] 4242 ''SIGTERM'')
       = Inr ()
   \<and> fst (win32_killProcess (failingSystem ''Access is denied'' False) [4242] 4242 ''SIGTERM'')
       = Inl (FailedToTerminate 4242)
   \<and> fst (win32_killProcess (failingSystem ''Zugriff verweigert'' False) [4242] 4242 ''SIGTERM'')
       = Inl (FailedToTerminate 4242)
   \<and> fst (taskkill stubbornSystem [4242] 4242 (''SIGTERM'' = ''SIGKILL'')) = Returns ()
   \<and> fst (win32_killProcess stubbornSystem [4242] 4242 ''SIGTERM'') = Inr ()"
proof -
  have a: "fst (taskkill (failingSystem ''Zugriff verweigert'' True) [4242] 4242
                 (''SIGTERM'' = ''SIGKILL'')) = Throws ''Zugriff verweigert''"
    and b: "\<not> win32_isProcessAlive (failingSystem ''Zugriff verweigert'' True)
         (snd (taskkill (failingSystem ''Zugriff verweigert'' True) [4242] 4242
                (''SIGTERM'' = ''SIGKILL''))) 4242"
    and c: "fst (taskkill stubbornSystem [4242] 4242 (''SIGTERM'' = ''SIGKILL'')) = Returns ()"
    by (simp_all add: failingSystem_def stubbornSystem_def win32_isProcessAlive_def)
  have d: "fst (taskkill (failingSystem t False) [4242] 4242 (''SIGTERM'' = ''SIGKILL'')) = Throws t
      \<and> win32_isProcessAlive (failingSystem t False)
          (snd (win32_killProcess (failingSystem t False) [4242] 4242 ''SIGTERM'')) 4242" for t
    by (simp add: failingSystem_def win32_isProcessAlive_def win32_killProcess_def)
  from killProcess_fails_iff [of "failingSystem ''Zugriff verweigert'' True" "[4242]" 4242 "''SIGTERM''"]
    killProcess_fails_iff [of "failingSystem ''Access is denied'' False" "[4242]" 4242 "''SIGTERM''"]
    killProcess_fails_iff [of "failingSystem ''Zugriff verweigert'' False" "[4242]" 4242 "''SIGTERM''"]
    killProcess_fails_iff [of stubbornSystem "[4242]" 4242 "''SIGTERM''"]
    a b c d [of "''Access is denied''"] d [of "''Zugriff verweigert''"]
  show ?thesis by blast
qed

text \<open>
  C6 as stated fails in one direction: the command reports success, the process is still
  alive afterwards, and \<^verbatim>\<open>killProcess\<close> succeeds.
\<close>

theorem killProcess_alive_after_success_counterexample:
  "fst (win32_killProcess stubbornSystem [4242] 4242 ''SIGTERM'') = Inr ()
   \<and> win32_isProcessAlive stubbornSystem
        (snd (win32_killProcess stubbornSystem [4242] 4242 ''SIGTERM'')) 4242"
  by (simp add: win32_killProcess_def win32_isProcessAlive_def stubbornSystem_def)

section \<open>Properties of the cleaner\<close>

lemma clearOrphanEntries_no_orphans: "getOrphanProcesses (clearOrphanEntries reg) = []"
  by (simp add: getOrphanProcesses_def clearOrphanEntries_def getCurrentProcesses_def
      filter_empty_conv)

lemma cleanupOrphans_registry:
  assumes "getCurrentInstanceId reg = Some currentId" and "currentId \<noteq> []"
  shows "fst (snd (cleanupOrphans ops reg w)) = clearOrphanEntries reg"
  using assms by (simp add: cleanupOrphans_def Let_def)

lemma killByPid_nothing:
  "noLiveOrphanEntry ops (snd rw) entries \<Longrightarrow> killByPid ops entries rw = rw"
  by (induction entries) (auto simp: noLiveOrphanEntry_def split: option.splits)

lemma killByArgs_nothing:
  "list_all (\<lambda>proc. includesStr (info_commandLine proc) (HALO_INSTANCE_PREFIX @ currentId)
                           \<or> \<not> isProcessAlive ops (snd rw) (info_pid proc)) procs \<Longrightarrow>
     killByArgs ops currentId procs rw = rw"
  by (induction procs) auto

lemma cleanupOrphans_nothing:
  assumes "getCurrentInstanceId reg = Some currentId" and "currentId \<noteq> []"
    and "noLiveOrphanEntry ops w (getOrphanProcesses reg)"
    and "noLiveForeignProcess ops w currentId"
  shows "cleanupOrphans ops reg w
           = (\<lparr>cleaned = 0, failed = 0, details = []\<rparr>, clearOrphanEntries reg, w)"
proof -
  let ?r = "\<lparr>cleaned = 0, failed = 0, details = []\<rparr>"
  from assms(3) have p: "killByPid ops (getOrphanProcesses reg) (?r, w) = (?r, w)"
    by (intro killByPid_nothing) simp
  have a: "(case findByArgs ops w HALO_MANAGED_FLAG of
              Returns haloProcesses \<Rightarrow> killByArgs ops currentId haloProcesses (?r, w)
            | Throws m \<Rightarrow> (?r, w)) = (?r, w)"
    using assms(4) killByArgs_nothing [of currentId ops "(?r, w)"]
    by (auto simp: noLiveForeignProcess_def split: outcome.splits)
  show ?thesis
    using assms(1,2) a unfolding cleanupOrphans_def Let_def p by simp
qed

text \<open>
  C5. With the instance marked, \<^verbatim>\<open>cleanupOrphans\<close> leaves no orphan entry in the
  registry, whatever the platform operations answer and whether kills succeed or fail;
  and a second call that finds nothing left to clean (after the first call this is: no
  live process of another instance in the scan by command line) returns
  \<open>cleaned = 0\<close>, \<open>failed = 0\<close> and changes nothing.
\<close>

theorem cleanupOrphans_clears_and_idempotent:
  assumes "getCurrentInstanceId reg = Some currentId" and "currentId \<noteq> []"
  shows "getOrphanProcesses (fst (snd (cleanupOrphans ops reg w))) = []
     \<and> (noLiveForeignProcess ops (snd (snd (cleanupOrphans ops reg w))) currentId \<longrightarrow>
          cleanupOrphans ops (fst (snd (cleanupOrphans ops reg w)))
              (snd (snd (cleanupOrphans ops reg w)))
            = (\<lparr>cleaned = 0, failed = 0, details = []\<rparr>,
               fst (snd (cleanupOrphans ops reg w)),
               snd (snd (cleanupOrphans ops reg w))))
     \<and> (noLiveOrphanEntry ops w (getOrphanProcesses reg)
          \<and> noLiveForeignProcess ops w currentId \<longrightarrow>
          fst (cleanupOrphans ops reg w) = \<lparr>cleaned = 0, failed = 0, details = []\<rparr>)"
proof -
  let ?reg1 = "fst (snd (cleanupOrphans ops reg w))"
  let ?w1 = "snd (snd (cleanupOrphans ops reg w))"
  have reg1: "?reg1 = clearOrphanEntries reg"
    using assms by (rule cleanupOrphans_registry)
  then have none: "getOrphanProcesses ?reg1 = []"
    by (simp add: clearOrphanEntries_no_orphans)
  from reg1 assms(1) have id1: "getCurrentInstanceId ?reg1 = Some currentId"
    by (simp add: getCurrentInstanceId_def clearOrphanEntries_def)
  have again: "cleanupOrphans ops ?reg1 ?w1
      = (\<lparr>cleaned = 0, failed = 0, details = []\<rparr>, ?reg1, ?w1)"
    if f: "noLiveForeignProcess ops ?w1 currentId"
  proof -
    from none have "noLiveOrphanEntry ops ?w1 (getOrphanProcesses ?reg1)"
      by (simp add: noLiveOrphanEntry_def)
    from cleanupOrphans_nothing [OF id1 assms(2) this f]
    have "cleanupOrphans ops ?reg1 ?w1
      = (\<lparr>cleaned = 0, failed = 0, details = []\<rparr>, clearOrphanEntries ?reg1, ?w1)" .
    moreover have "clearOrphanEntries ?reg1 = ?reg1"
      unfolding reg1
      by (simp add: clearOrphanEntries_def getCurrentProcesses_def)
    ultimately show ?thesis by simp
  qed
  have direct: "fst (cleanupOrphans ops reg w) = \<lparr>cleaned = 0, failed = 0, details = []\<rparr>"
    if "noLiveOrphanEntry ops w (getOrphanProcesses reg) \<and> noLiveForeignProcess ops w currentId"
    using cleanupOrphans_nothing [OF assms, of ops w] that by simp
  from none again direct show ?thesis by blast
qed

theorem cleanupOrphans_clears_and_idempotent_witness:
  "getCurrentInstanceId orphanRegistry = Some ''instance-1'' \<and> ''instance-1'' \<noteq> []
   \<and> getOrphanProcesses orphanRegistry = [orphanEntry]
   \<and> failed (fst (cleanupOrphans unkillableOps orphanRegistry [4242])) = 1
   \<and> getOrphanProcesses (fst (snd (cleanupOrphans unkillableOps orphanRegistry [4242]))) = []
   \<and> noLiveForeignProcess unkillableOps
        (snd (snd (cleanupOrphans unkillableOps orphanRegistry [4242]))) ''instance-1''
   \<and> fst (cleanupOrphans unkillableOps
            (fst (snd (cleanupOrphans unkillableOps orphanRegistry [4242])))
            (snd (snd (cleanupOrphans unkillableOps orphanRegistry [4242]))))
       = \<lparr>cleaned = 0, failed = 0, details = []\<rparr>"
proof -
  have i: "getCurrentInstanceId orphanRegistry = Some ''instance-1''" and n: "''instance-1'' \<noteq> []"
    by (simp_all add: getCurrentInstanceId_def orphanRegistry_def)
  have o: "getOrphanProcesses orphanRegistry = [orphanEntry]"
    by (simp add: getOrphanProcesses_def orphanRegistry_def orphanEntry_def sampleEntry_def)
  have f: "failed (fst (cleanupOrphans unkillableOps orphanRegistry [4242])) = 1"
    by (simp add: cleanupOrphans_def i o Let_def orphanEntry_def killAndRecord_def
        unkillableOps_def Win32ProcessOps_def win32_killProcess_def win32_isProcessAlive_def
        failingSystem_def HALO_MANAGED_FLAG_def)
  have q: "noLiveForeignProcess unkillableOps w ''instance-1''" for w
    by (simp add: noLiveForeignProcess_def unkillableOps_def Win32ProcessOps_def
        failingSystem_def)
  from cleanupOrphans_clears_and_idempotent [OF i n, of unkillableOps "[4242]"] i n o f q
  show ?thesis by simp
qed

section \<open>Properties of the startup checker\<close>

text \<open>
  When the underlying call fails with anything but \<^verbatim>\<open>null\<close> or \<^verbatim>\<open>undefined\<close>,
  or takes more than 10 seconds, the wrapped probe gives a result with
  \<open>healthy = true\<close> and severity warning under the probe's name.
\<close>

lemma safeProbe_degrades:
  assumes "failure probeFn PROBE_TIMEOUT_MS = Some (ThrownError m)"
  shows "safeProbe name now probeFn =
     Completes \<lparr> pr_name = name, pr_healthy = True, pr_severity = SevWarning,
                 pr_message = ''Probe failed: '' @ m, pr_timestamp = now,
                 pr_errors = None \<rparr>"
  using assms
  by (auto simp: safeProbe_def failure_def readMessage_def
      split: invocation.splits completion.splits)

lemma safeProbe_timeout:
  "failure (Gives Never) PROBE_TIMEOUT_MS = Some (ThrownError ''Timeout'')"
  "PROBE_TIMEOUT_MS < t \<Longrightarrow>
     failure (Gives (Settles t r)) PROBE_TIMEOUT_MS = Some (ThrownError ''Timeout'')"
  by (simp_all add: failure_def withTimeout_def)

lemma safeProbe_completes:
  assumes "failure probeFn PROBE_TIMEOUT_MS \<noteq> Some ThrownNullish"
  shows "\<exists>r. safeProbe name now probeFn = Completes r"
  using assms
  by (auto simp: safeProbe_def failure_def readMessage_def
      split: invocation.splits completion.splits thrown.splits)

lemma safeProbe_raises:
  assumes "failure probeFn PROBE_TIMEOUT_MS = Some ThrownNullish"
  shows "safeProbe name now probeFn
     = Raises (ThrownError ''Cannot read properties of undefined'')"
  using assms
  by (auto simp: safeProbe_def failure_def readMessage_def
      split: invocation.splits completion.splits)

text \<open>
  When no probe fails with \<^verbatim>\<open>null\<close> or \<^verbatim>\<open>undefined\<close>, the overall check returns
  the results of all four probes, whichever of them failed.
\<close>

lemma runStartupChecks_all_probes:
  assumes "failure c PROBE_TIMEOUT_MS \<noteq> Some ThrownNullish"
    and "failure p PROBE_TIMEOUT_MS \<noteq> Some ThrownNullish"
    and "failure d PROBE_TIMEOUT_MS \<noteq> Some ThrownNullish"
    and "failure x PROBE_TIMEOUT_MS \<noteq> Some ThrownNullish"
  shows "\<exists>rc rp rd rx.
      safeProbe ''config'' now c = Completes rc \<and> safeProbe ''port'' now p = Completes rp
      \<and> safeProbe ''disk'' now d = Completes rd \<and> safeProbe ''process'' now x = Completes rx
      \<and> runStartupChecks (Completes clean) now c p d x =
           \<lparr>sc_status = determineOverallStatus [rc, rp, rd, rx],
            sc_probes = [rc, rp, rd, rx]\<rparr>"
proof -
  from safeProbe_completes [OF assms(1)] obtain rc where
    "safeProbe ''config'' now c = Completes rc" by blast
  moreover from safeProbe_completes [OF assms(2)] obtain rp where
    "safeProbe ''port'' now p = Completes rp" by blast
  moreover from safeProbe_completes [OF assms(3)] obtain rd where
    "safeProbe ''disk'' now d = Completes rd" by blast
  moreover from safeProbe_completes [OF assms(4)] obtain rx where
    "safeProbe ''process'' now x = Completes rx" by blast
  ultimately show ?thesis by (simp add: runStartupChecks_def)
qed


section \<open>Properties of the config probe\<close>

lemma null_has_no_fields: "\<not> hasAiSourcesCurrent (member JNull ''aiSources'')"
  by (simp add: hasAiSourcesCurrent_def isV2_def optMember_def member_def truthy_def)

text \<open>
  C9 (as amended). A missing file gives severity info; a file that is not valid JSON, or
  a configuration without \<^verbatim>\<open>aiSources.current\<close>/\<^verbatim>\<open>currentId\<close> or without
  \<^verbatim>\<open>permissions\<close>, gives critical; a configuration with these fields whose credential
  check completes and finds no credentials for the active source gives warning; and one
  whose credential check throws gives critical.
\<close>

theorem runConfigProbe_classification:
  "cp_severity (runConfigProbe k Missing) = SevInfo
   \<and> cp_severity (runConfigProbe k (Unparsable m)) = SevCritical
   \<and> (\<not> (hasAiSourcesCurrent (member config ''aiSources'') \<and> hasPermissions config) \<longrightarrow>
        cp_severity (runConfigProbe k (Parsed config)) = SevCritical)
   \<and> (hasAiSourcesCurrent (member config ''aiSources'') \<and> hasPermissions config
        \<and> credentialCheck k (member config ''aiSources'') = Returns False \<longrightarrow>
        cp_severity (runConfigProbe k (Parsed config)) = SevWarning)
   \<and> (hasAiSourcesCurrent (member config ''aiSources'') \<and> hasPermissions config
        \<and> (\<exists>e. credentialCheck k (member config ''aiSources'') = Throws e) \<longrightarrow>
        cp_severity (runConfigProbe k (Parsed config)) = SevCritical)"
proof (intro conjI impI)
  show "cp_severity (runConfigProbe k Missing) = SevInfo"
    by (simp add: runConfigProbe_def)
  show "cp_severity (runConfigProbe k (Unparsable m)) = SevCritical"
    by (simp add: runConfigProbe_def)
next
  assume "\<not> (hasAiSourcesCurrent (member config ''aiSources'') \<and> hasPermissions config)"
  then show "cp_severity (runConfigProbe k (Parsed config)) = SevCritical"
    by (auto simp: runConfigProbe_def unexpectedError_def Let_def split: outcome.splits)
next
  assume a: "hasAiSourcesCurrent (member config ''aiSources'') \<and> hasPermissions config
        \<and> credentialCheck k (member config ''aiSources'') = Returns False"
  with null_has_no_fields have "config \<noteq> JNull" by auto
  with a show "cp_severity (runConfigProbe k (Parsed config)) = SevWarning"
    by (simp add: runConfigProbe_def Let_def)
next
  assume a: "hasAiSourcesCurrent (member config ''aiSources'') \<and> hasPermissions config
        \<and> (\<exists>e. credentialCheck k (member config ''aiSources'') = Throws e)"
  then show "cp_severity (runConfigProbe k (Parsed config)) = SevCritical"
    by (auto simp: runConfigProbe_def unexpectedError_def Let_def)
qed

lemmas json_defs = member_def optMember_def truthy_def typeofString_def typeofObject_def
  nonEmptyString_def strictEquals_def isV2_def hasPermissions_def hasAiSourcesCurrent_def
  apiKeyConfiguredV2_def apiKeyConfiguredV1_def credentialCheck_def

theorem runConfigProbe_classification_witness:
  "\<not> (hasAiSourcesCurrent (member (JObj []) ''aiSources'') \<and> hasPermissions (JObj []))
   \<and> cp_severity (runConfigProbe sampleKey (Parsed (JObj []))) = SevCritical
   \<and> hasAiSourcesCurrent (member noKeyConfig ''aiSources'') \<and> hasPermissions noKeyConfig
   \<and> credentialCheck sampleKey (member noKeyConfig ''aiSources'') = Returns False
   \<and> cp_severity (runConfigProbe sampleKey (Parsed noKeyConfig)) = SevWarning
   \<and> hasAiSourcesCurrent (member badSourcesConfig ''aiSources'') \<and> hasPermissions badSourcesConfig
   \<and> credentialCheck sampleKey (member badSourcesConfig ''aiSources'')
       = Throws ''sources?.find is not a function''
   \<and> cp_severity (runConfigProbe sampleKey (Parsed badSourcesConfig)) = SevCritical
   \<and> cp_severity (runConfigProbe sampleKey Missing) = SevInfo
   \<and> cp_severity (runConfigProbe sampleKey (Unparsable ''Unexpected token'')) = SevCritical"
proof -
  have a: "\<not> (hasAiSourcesCurrent (member (JObj []) ''aiSources'') \<and> hasPermissions (JObj []))"
    by (simp add: json_defs)
  have b: "hasAiSourcesCurrent (member noKeyConfig ''aiSources'') \<and> hasPermissions noKeyConfig
      \<and> credentialCheck sampleKey (member noKeyConfig ''aiSources'') = Returns False"
    by (simp add: json_defs noKeyConfig_def)
  have c: "hasAiSourcesCurrent (member badSourcesConfig ''aiSources'')
      \<and> hasPermissions badSourcesConfig
      \<and> credentialCheck sampleKey (member badSourcesConfig ''aiSources'')
          = Throws ''sources?.find is not a function''"
    by (simp add: json_defs badSourcesConfig_def)
  from runConfigProbe_classification [of sampleKey "''Unexpected token''" "JObj []"]
    runConfigProbe_classification [of sampleKey "''Unexpected token''" noKeyConfig]
    runConfigProbe_classification [of sampleKey "''Unexpected token''" badSourcesConfig]
    a b c
  show ?thesis by blast
qed

text \<open>
  C9 as stated fails: a configuration that is valid JSON and has its schema-critical
  fields, with no credentials configured, is classified critical, not warning, when
  \<^verbatim>\<open>sources\<close> is not an array.
\<close>

theorem valid_config_without_credentials_counterexample:
  "hasAiSourcesCurrent (member badSourcesConfig ''aiSources'')
   \<and> hasPermissions badSourcesConfig
   \<and> cp_jsonValid (runConfigProbe sampleKey (Parsed badSourcesConfig))
   \<and> cp_criticalFieldsPresent (runConfigProbe sampleKey (Parsed badSourcesConfig))
   \<and> \<not> cp_apiKeyConfigured (runConfigProbe sampleKey (Parsed badSourcesConfig))
   \<and> cp_severity (runConfigProbe sampleKey (Parsed badSourcesConfig)) = SevCritical
   \<and> cp_severity (runConfigProbe sampleKey (Parsed badSourcesConfig)) \<noteq> SevWarning"
  by (simp add: json_defs badSourcesConfig_def runConfigProbe_def unexpectedError_def)

end
